theory Spec2Isabelle
  imports Main "HOL-Library.Word"
begin

unbundle bit_operations_syntax

section \<open>Strings, bytes and text encoding\<close>

text \<open>
  A JavaScript string is a sequence of UTF-16 code units; a \<^verbatim>\<open>Buffer\<close> and the content
  of a file are sequences of bytes. String literals of the source are written with \<open>S\<close>.
\<close>

type_synonym byte = "8 word"
type_synonym jsstring = "16 word list"

definition S :: "string \<Rightarrow> jsstring" where
  "S cs = map (\<lambda>c. of_nat (of_char c)) cs"

definition is_high_surrogate :: "16 word \<Rightarrow> bool" where
  "is_high_surrogate u = (0xD800 \<le> u \<and> u \<le> 0xDBFF)"

definition is_low_surrogate :: "16 word \<Rightarrow> bool" where
  "is_low_surrogate u = (0xDC00 \<le> u \<and> u \<le> 0xDFFF)"

text \<open>
  The UTF-8 bytes of one code point (\<^verbatim>\<open>Buffer.from(s, 'utf-8')\<close> works code point by
  code point).
\<close>

definition utf8_code_point :: "32 word \<Rightarrow> byte list" where
  "utf8_code_point cp =
     (if cp < 0x80 then [ucast cp]
      else if cp < 0x800 then
        [0xC0 OR ucast (drop_bit 6 cp), 0x80 OR ucast (cp AND 0x3F)]
      else if cp < 0x10000 then
        [0xE0 OR ucast (drop_bit 12 cp), 0x80 OR ucast (drop_bit 6 cp AND 0x3F),
         0x80 OR ucast (cp AND 0x3F)]
      else
        [0xF0 OR ucast (drop_bit 18 cp), 0x80 OR ucast (drop_bit 12 cp AND 0x3F),
         0x80 OR ucast (drop_bit 6 cp AND 0x3F), 0x80 OR ucast (cp AND 0x3F)])"

definition surrogate_pair :: "16 word \<Rightarrow> 16 word \<Rightarrow> 32 word" where
  "surrogate_pair hi lo =
     0x10000 + push_bit 10 (ucast (hi AND 0x3FF)) + ucast (lo AND 0x3FF)"

text \<open>
  \<^verbatim>\<open>Buffer.from(s, 'utf-8')\<close>: a surrogate pair is one code point of four bytes, a lone
  surrogate is replaced by U+FFFD.
\<close>

fun utf8_encode :: "jsstring \<Rightarrow> byte list" where
  "utf8_encode [] = []"
| "utf8_encode [u] =
     (if is_high_surrogate u \<or> is_low_surrogate u then utf8_code_point 0xFFFD
      else utf8_code_point (ucast u))"
| "utf8_encode (u # v # vs) =
     (if is_high_surrogate u then
        (if is_low_surrogate v then utf8_code_point (surrogate_pair u v) @ utf8_encode vs
         else utf8_code_point 0xFFFD @ utf8_encode (v # vs))
      else if is_low_surrogate u then utf8_code_point 0xFFFD @ utf8_encode (v # vs)
      else utf8_code_point (ucast u) @ utf8_encode (v # vs))"

text \<open>
  \<^verbatim>\<open>buf.toString('utf-8')\<close>, which is what \<^verbatim>\<open>fs.readFile(path, 'utf-8')\<close> returns: the
  decoder keeps, for the sequence it is in, the code point so far, the number of
  continuation bytes still expected and the range allowed for the next byte. An
  ill-formed sequence gives U+FFFD and decoding resumes at the offending byte.
\<close>

definition utf16_code_point :: "32 word \<Rightarrow> jsstring" where
  "utf16_code_point cp =
     (if cp < 0x10000 then [ucast cp]
      else [0xD800 OR ucast (drop_bit 10 (cp - 0x10000)),
            0xDC00 OR ucast ((cp - 0x10000) AND 0x3FF)])"

fun utf8_decode_from :: "32 word \<Rightarrow> nat \<Rightarrow> byte \<Rightarrow> byte \<Rightarrow> byte list \<Rightarrow> jsstring" where
  "utf8_decode_from cp needed lower upper [] = (if needed = 0 then [] else [0xFFFD])"
| "utf8_decode_from cp needed lower upper (b # bs) =
     (if needed = 0 then
        (if b \<le> 0x7F then ucast b # utf8_decode_from 0 0 0x80 0xBF bs
         else if 0xC2 \<le> b \<and> b \<le> 0xDF then
           utf8_decode_from (ucast (b AND 0x1F)) 1 0x80 0xBF bs
         else if 0xE0 \<le> b \<and> b \<le> 0xEF then
           utf8_decode_from (ucast (b AND 0x0F)) 2
             (if b = 0xE0 then 0xA0 else 0x80) (if b = 0xED then 0x9F else 0xBF) bs
         else if 0xF0 \<le> b \<and> b \<le> 0xF4 then
           utf8_decode_from (ucast (b AND 0x07)) 3
             (if b = 0xF0 then 0x90 else 0x80) (if b = 0xF4 then 0x8F else 0xBF) bs
         else 0xFFFD # utf8_decode_from 0 0 0x80 0xBF bs)
      else if lower \<le> b \<and> b \<le> upper then
        (let cp' = push_bit 6 cp OR ucast (b AND 0x3F)
         in if needed = 1 then utf16_code_point cp' @ utf8_decode_from 0 0 0x80 0xBF bs
            else utf8_decode_from cp' (needed - 1) 0x80 0xBF bs)
      else 0xFFFD # utf8_decode_from 0 0 0x80 0xBF (b # bs))"

definition utf8_decode :: "byte list \<Rightarrow> jsstring" where
  "utf8_decode bs = utf8_decode_from 0 0 0x80 0xBF bs"

definition is_ascii :: "16 word \<Rightarrow> bool" where
  "is_ascii u = (u < 0x80)"

text \<open>\<^verbatim>\<open>String(n)\<close> for a non-negative integer \<open>n\<close>: its decimal digits.\<close>

fun decimal :: "nat \<Rightarrow> jsstring" where
  "decimal n =
     (if n < 10 then [of_nat (48 + n)]
      else decimal (n div 10) @ [of_nat (48 + n mod 10)])"

declare decimal.simps [simp del]

section \<open>Hash functions of the runtime\<close>

text \<open>
  \<^verbatim>\<open>createHash('sha256')\<close> and \<^verbatim>\<open>createHash('sha1')\<close> of \<^verbatim>\<open>node:crypto\<close> compute
  SHA-256 and SHA-1 (FIPS 180-4) of the bytes fed to them. Both work on 32-bit words
  over 64-byte blocks of the padded message.
\<close>

definition rotr :: "nat \<Rightarrow> 32 word \<Rightarrow> 32 word" where
  "rotr n w = drop_bit n w OR push_bit (32 - n) w"

definition rotl :: "nat \<Rightarrow> 32 word \<Rightarrow> 32 word" where
  "rotl n w = push_bit n w OR drop_bit (32 - n) w"

definition be32 :: "byte list \<Rightarrow> 32 word" where
  "be32 bs = foldl (\<lambda>acc b. push_bit 8 acc OR ucast b) 0 (take 4 bs)"

definition word_bytes :: "32 word \<Rightarrow> byte list" where
  "word_bytes w = [ucast (drop_bit 24 w), ucast (drop_bit 16 w), ucast (drop_bit 8 w), ucast w]"

definition length_bytes :: "64 word \<Rightarrow> byte list" where
  "length_bytes n = map (\<lambda>i. ucast (drop_bit (8 * (7 - i)) n)) [0..<8]"

definition sha_pad :: "byte list \<Rightarrow> byte list" where
  "sha_pad m = m @ [0x80] @ replicate ((119 - length m mod 64) mod 64) 0
                 @ length_bytes (of_nat (8 * length m))"

function chunks :: "nat \<Rightarrow> 'a list \<Rightarrow> 'a list list" where
  "chunks n xs = (if n = 0 \<or> xs = [] then [] else take n xs # chunks n (drop n xs))"
  by pat_completeness auto
termination
  by (relation "measure (\<lambda>(n, xs). length xs)") auto

declare chunks.simps [simp del]

text \<open>SHA-256.\<close>

definition sha256_K :: "32 word list" where
  "sha256_K = [
    0x428A2F98, 0x71374491, 0xB5C0FBCF, 0xE9B5DBA5, 0x3956C25B, 0x59F111F1, 0x923F82A4, 0xAB1C5ED5,
    0xD807AA98, 0x12835B01, 0x243185BE, 0x550C7DC3, 0x72BE5D74, 0x80DEB1FE, 0x9BDC06A7, 0xC19BF174,
    0xE49B69C1, 0xEFBE4786, 0x0FC19DC6, 0x240CA1CC, 0x2DE92C6F, 0x4A7484AA, 0x5CB0A9DC, 0x76F988DA,
    0x983E5152, 0xA831C66D, 0xB00327C8, 0xBF597FC7, 0xC6E00BF3, 0xD5A79147, 0x06CA6351, 0x14292967,
    0x27B70A85, 0x2E1B2138, 0x4D2C6DFC, 0x53380D13, 0x650A7354, 0x766A0ABB, 0x81C2C92E, 0x92722C85,
    0xA2BFE8A1, 0xA81A664B, 0xC24B8B70, 0xC76C51A3, 0xD192E819, 0xD6990624, 0xF40E3585, 0x106AA070,
    0x19A4C116, 0x1E376C08, 0x2748774C, 0x34B0BCB5, 0x391C0CB3, 0x4ED8AA4A, 0x5B9CCA4F, 0x682E6FF3,
    0x748F82EE, 0x78A5636F, 0x84C87814, 0x8CC70208, 0x90BEFFFA, 0xA4506CEB, 0xBEF9A3F7, 0xC67178F2]"

type_synonym sha256_state =
  "32 word \<times> 32 word \<times> 32 word \<times> 32 word \<times> 32 word \<times> 32 word \<times> 32 word \<times> 32 word"

definition sha256_init :: sha256_state where
  "sha256_init = (0x6A09E667, 0xBB67AE85, 0x3C6EF372, 0xA54FF53A,
                  0x510E527F, 0x9B05688C, 0x1F83D9AB, 0x5BE0CD19)"

fun sha256_schedule :: "nat \<Rightarrow> 32 word list \<Rightarrow> 32 word list" where
  "sha256_schedule 0 w = w"
| "sha256_schedule (Suc k) w =
     (let n = length w;
          w15 = w ! (n - 15);
          w2 = w ! (n - 2);
          s0 = rotr 7 w15 XOR rotr 18 w15 XOR drop_bit 3 w15;
          s1 = rotr 17 w2 XOR rotr 19 w2 XOR drop_bit 10 w2
      in sha256_schedule k (w @ [w ! (n - 16) + s0 + w ! (n - 7) + s1]))"

fun sha256_round :: "sha256_state \<Rightarrow> 32 word \<times> 32 word \<Rightarrow> sha256_state" where
  "sha256_round (a, b, c, d, e, f, g, h) (k, w) =
     (let s1 = rotr 6 e XOR rotr 11 e XOR rotr 25 e;
          ch = (e AND f) XOR (NOT e AND g);
          t1 = h + s1 + ch + k + w;
          s0 = rotr 2 a XOR rotr 13 a XOR rotr 22 a;
          maj = (a AND b) XOR (a AND c) XOR (b AND c);
          t2 = s0 + maj
      in (t1 + t2, a, b, c, d + t1, e, f, g))"

fun sha256_add :: "sha256_state \<Rightarrow> sha256_state \<Rightarrow> sha256_state" where
  "sha256_add (a, b, c, d, e, f, g, h) (a', b', c', d', e', f', g', h') =
     (a + a', b + b', c + c', d + d', e + e', f + f', g + g', h + h')"

definition sha256_block :: "sha256_state \<Rightarrow> byte list \<Rightarrow> sha256_state" where
  "sha256_block st blk =
     (let w = sha256_schedule 48 (map be32 (chunks 4 blk))
      in sha256_add st (foldl sha256_round st (zip sha256_K w)))"

fun sha256_output :: "sha256_state \<Rightarrow> byte list" where
  "sha256_output (a, b, c, d, e, f, g, h) =
     concat (map word_bytes [a, b, c, d, e, f, g, h])"

definition sha256 :: "byte list \<Rightarrow> byte list" where
  "sha256 m = sha256_output (foldl sha256_block sha256_init (chunks 64 (sha_pad m)))"

text \<open>SHA-1.\<close>

type_synonym sha1_state = "32 word \<times> 32 word \<times> 32 word \<times> 32 word \<times> 32 word"

definition sha1_init :: sha1_state where
  "sha1_init = (0x67452301, 0xEFCDAB89, 0x98BADCFE, 0x10325476, 0xC3D2E1F0)"

fun sha1_schedule :: "nat \<Rightarrow> 32 word list \<Rightarrow> 32 word list" where
  "sha1_schedule 0 w = w"
| "sha1_schedule (Suc k) w =
     (let n = length w
      in sha1_schedule k
           (w @ [rotl 1 (w ! (n - 3) XOR w ! (n - 8) XOR w ! (n - 14) XOR w ! (n - 16))]))"

fun sha1_round :: "sha1_state \<Rightarrow> nat \<times> 32 word \<Rightarrow> sha1_state" where
  "sha1_round (a, b, c, d, e) (t, w) =
     (let f = (if t < 20 then (b AND c) OR (NOT b AND d)
               else if t < 40 then b XOR c XOR d
               else if t < 60 then (b AND c) OR (b AND d) OR (c AND d)
               else b XOR c XOR d);
          k = (if t < 20 then 0x5A827999
               else if t < 40 then 0x6ED9EBA1
               else if t < 60 then 0x8F1BBCDC
               else 0xCA62C1D6)
      in (rotl 5 a + f + e + k + w, a, rotl 30 b, c, d))"

fun sha1_add :: "sha1_state \<Rightarrow> sha1_state \<Rightarrow> sha1_state" where
  "sha1_add (a, b, c, d, e) (a', b', c', d', e') = (a + a', b + b', c + c', d + d', e + e')"

definition sha1_block :: "sha1_state \<Rightarrow> byte list \<Rightarrow> sha1_state" where
  "sha1_block st blk =
     (let w = sha1_schedule 64 (map be32 (chunks 4 blk))
      in sha1_add st (foldl sha1_round st (zip [0..<80] w)))"

fun sha1_output :: "sha1_state \<Rightarrow> byte list" where
  "sha1_output (a, b, c, d, e) = concat (map word_bytes [a, b, c, d, e])"

definition sha1 :: "byte list \<Rightarrow> byte list" where
  "sha1 m = sha1_output (foldl sha1_block sha1_init (chunks 64 (sha_pad m)))"

text \<open>
  A \<^verbatim>\<open>Hash\<close> object accumulates what \<^verbatim>\<open>update\<close> feeds it; \<^verbatim>\<open>digest\<close> hashes the
  accumulated bytes. \<^verbatim>\<open>update\<close> with a string encodes it as UTF-8.
\<close>

type_synonym hash_ctx = "byte list"

definition createHash :: hash_ctx where
  "createHash = []"

definition Hash_update :: "hash_ctx \<Rightarrow> byte list \<Rightarrow> hash_ctx" where
  "Hash_update h bs = h @ bs"

definition Hash_update_string :: "hash_ctx \<Rightarrow> jsstring \<Rightarrow> hash_ctx" where
  "Hash_update_string h s = Hash_update h (utf8_encode s)"

text \<open>\<^verbatim>\<open>buf.toString('hex')\<close> and \<^verbatim>\<open>hash.digest('hex')\<close>: two lowercase digits per byte.\<close>

definition hex_digit :: "nat \<Rightarrow> 16 word" where
  "hex_digit n = S ''0123456789abcdef'' ! n"

definition hex_byte :: "byte \<Rightarrow> jsstring" where
  "hex_byte b = [hex_digit (unat b div 16), hex_digit (unat b mod 16)]"

definition hex_encode :: "byte list \<Rightarrow> jsstring" where
  "hex_encode bs = concat (map hex_byte bs)"

definition sha256_digest_hex :: "hash_ctx \<Rightarrow> jsstring" where
  "sha256_digest_hex h = hex_encode (sha256 h)"

definition sha1_digest :: "hash_ctx \<Rightarrow> byte list" where
  "sha1_digest h = sha1 h"

definition is_lower_hex :: "16 word \<Rightarrow> bool" where
  "is_lower_hex u = ((0x30 \<le> u \<and> u \<le> 0x39) \<or> (0x61 \<le> u \<and> u \<le> 0x66))"

section \<open>Operations of the language runtime\<close>

subsection \<open>String methods\<close>

abbreviation LF :: "16 word" where
  "LF \<equiv> 0x0A"

text \<open>\<^verbatim>\<open>s.startsWith(p)\<close> and \<^verbatim>\<open>s.includes(p)\<close>.\<close>

definition startsWith :: "jsstring \<Rightarrow> jsstring \<Rightarrow> bool" where
  "startsWith s p = (take (length p) s = p)"

fun string_includes :: "jsstring \<Rightarrow> jsstring \<Rightarrow> bool" where
  "string_includes [] p = (p = [])"
| "string_includes (c # cs) p = (startsWith (c # cs) p \<or> string_includes cs p)"

text \<open>
  \<^verbatim>\<open>s.slice(b, e)\<close> and \<^verbatim>\<open>s.slice(b)\<close>: a negative index counts from the end, and both
  indices are clamped to the string.
\<close>

definition slice_index :: "nat \<Rightarrow> int \<Rightarrow> nat" where
  "slice_index len i = (if i < 0 then nat (max (int len + i) 0) else min (nat i) len)"

definition slice :: "jsstring \<Rightarrow> int \<Rightarrow> int \<Rightarrow> jsstring" where
  "slice s b e =
     (let from = slice_index (length s) b; to = slice_index (length s) e
      in take (to - from) (drop from s))"

definition slice_from :: "jsstring \<Rightarrow> int \<Rightarrow> jsstring" where
  "slice_from s b = drop (slice_index (length s) b) s"

text \<open>\<^verbatim>\<open>s.lastIndexOf(c)\<close> for a one-character \<open>c\<close>: \<open>-1\<close> when \<open>c\<close> does not occur.\<close>

fun lastIndexOf_from :: "nat \<Rightarrow> int \<Rightarrow> jsstring \<Rightarrow> 16 word \<Rightarrow> int" where
  "lastIndexOf_from i found [] c = found"
| "lastIndexOf_from i found (x # xs) c =
     lastIndexOf_from (Suc i) (if x = c then int i else found) xs c"

definition lastIndexOf :: "jsstring \<Rightarrow> 16 word \<Rightarrow> int" where
  "lastIndexOf s c = lastIndexOf_from 0 (- 1) s c"

text \<open>\<^verbatim>\<open>s.split(c)\<close> for a one-character separator, and \<^verbatim>\<open>lines.join(sep)\<close>.\<close>

fun split :: "jsstring \<Rightarrow> 16 word \<Rightarrow> jsstring list" where
  "split [] c = [[]]"
| "split (x # xs) c =
     (if x = c then [] # split xs c
      else (case split xs c of l # ls \<Rightarrow> (x # l) # ls | [] \<Rightarrow> [[x]]))"

fun join :: "jsstring list \<Rightarrow> jsstring \<Rightarrow> jsstring" where
  "join [] sep = []"
| "join [l] sep = l"
| "join (l # l' # ls) sep = l @ sep @ join (l' # ls) sep"

text \<open>
  White space and line terminators, as \<^verbatim>\<open>trim\<close> and \<^verbatim>\<open>parseInt\<close> skip them.
\<close>

definition is_white_space :: "16 word \<Rightarrow> bool" where
  "is_white_space u =
     (u \<in> {0x09, 0x0A, 0x0B, 0x0C, 0x0D, 0x20, 0xA0, 0x1680, 0x2028, 0x2029, 0x202F, 0x205F,
            0x3000, 0xFEFF}
      \<or> (0x2000 \<le> u \<and> u \<le> 0x200A))"

definition trim :: "jsstring \<Rightarrow> jsstring" where
  "trim s = rev (dropWhile is_white_space (rev (dropWhile is_white_space s)))"

subsection \<open>Numbers\<close>

text \<open>
  The numbers of the program are integers (byte counts, Unix seconds) and the
  \<^verbatim>\<open>NaN\<close> that \<^verbatim>\<open>parseInt\<close> returns when it finds no digit. An integer below \<open>2^53\<close> in
  magnitude is a double exactly, and below \<open>10^21\<close> it prints as its decimal digits;
  the model is exact in that range.
\<close>

datatype number = Num int | NaN

fun number_to_string :: "number \<Rightarrow> jsstring" where
  "number_to_string NaN = S ''NaN''"
| "number_to_string (Num i) = (if i < 0 then S ''-'' @ decimal (nat (- i)) else decimal (nat i))"

definition is_digit :: "16 word \<Rightarrow> bool" where
  "is_digit u = (0x30 \<le> u \<and> u \<le> 0x39)"

definition digits_value :: "jsstring \<Rightarrow> nat" where
  "digits_value ds = foldl (\<lambda>acc d. 10 * acc + (unat d - 48)) 0 ds"

text \<open>
  \<^verbatim>\<open>parseInt(s, 10)\<close>: leading white space is skipped, then an optional sign, then the
  longest run of decimal digits is read; no digit gives \<^verbatim>\<open>NaN\<close>.
\<close>

definition parseInt :: "jsstring \<Rightarrow> number" where
  "parseInt s =
     (let t = dropWhile is_white_space s;
          negative = (t \<noteq> [] \<and> hd t = 0x2D);
          t = (if t \<noteq> [] \<and> (hd t = 0x2B \<or> hd t = 0x2D) then tl t else t);
          z = takeWhile is_digit t
      in if z = [] then NaN
         else Num ((if negative then - 1 else 1) * int (digits_value z)))"

subsection \<open>JSON values\<close>

text \<open>
  What \<^verbatim>\<open>JSON.parse\<close> returns. An object is the list of its own properties in
  enumeration order, which is the order \<^verbatim>\<open>JSON.stringify\<close> and the spread syntax follow.
  A number is kept as the text \<^verbatim>\<open>String\<close> gives for it (two equal numbers have the same
  text). \<open>None\<close> of \<open>jsval option\<close> is \<^verbatim>\<open>undefined\<close>.
\<close>

datatype jsval =
    JNull
  | JBool bool
  | JNum jsstring
  | JStr jsstring
  | JArr "jsval list"
  | JObj "(jsstring \<times> jsval) list"

text \<open>
  \<^verbatim>\<open>v[key]\<close> for the keys the program reads (none of them is a property of a prototype):
  a \<^verbatim>\<open>TypeError\<close>, here \<open>None\<close>, on \<^verbatim>\<open>null\<close>, the own property of an object, and
  \<^verbatim>\<open>undefined\<close> on anything else.
\<close>

fun get_property :: "jsval \<Rightarrow> jsstring \<Rightarrow> jsval option option" where
  "get_property JNull key = None"
| "get_property (JObj props) key = Some (map_of props key)"
| "get_property v key = Some None"

text \<open>
  \<^verbatim>\<open>{...obj, key: v}\<close>: a key the object has keeps its place, a new key goes last.
\<close>

fun set_property :: "(jsstring \<times> jsval) list \<Rightarrow> jsstring \<Rightarrow> jsval \<Rightarrow> (jsstring \<times> jsval) list" where
  "set_property [] key v = [(key, v)]"
| "set_property ((k, w) # props) key v =
     (if k = key then (k, v) # props else (k, w) # set_property props key v)"

text \<open>\<^verbatim>\<open>QuoteJSONString\<close>: the escapes of \<^verbatim>\<open>JSON.stringify\<close>.\<close>

definition unicode_escape :: "16 word \<Rightarrow> jsstring" where
  "unicode_escape u =
     [0x5C, 0x75] @ [hex_digit (unat (drop_bit 12 u)), hex_digit (unat (drop_bit 8 u AND 0xF)),
                 hex_digit (unat (drop_bit 4 u AND 0xF)), hex_digit (unat (u AND 0xF))]"

definition escape_unit :: "16 word \<Rightarrow> jsstring" where
  "escape_unit u =
     (if u = 0x08 then [0x5C, 0x62]
      else if u = 0x09 then [0x5C, 0x74]
      else if u = 0x0A then [0x5C, 0x6E]
      else if u = 0x0C then [0x5C, 0x66]
      else if u = 0x0D then [0x5C, 0x72]
      else if u = 0x22 then [0x5C, 0x22]
      else if u = 0x5C then [0x5C, 0x5C]
      else if u < 0x20 \<or> is_high_surrogate u \<or> is_low_surrogate u then unicode_escape u
      else [u])"

fun escape_string :: "jsstring \<Rightarrow> jsstring" where
  "escape_string [] = []"
| "escape_string [u] = escape_unit u"
| "escape_string (u # v # vs) =
     (if is_high_surrogate u \<and> is_low_surrogate v then u # v # escape_string vs
      else escape_unit u @ escape_string (v # vs))"

definition quote :: "jsstring \<Rightarrow> jsstring" where
  "quote s = [0x22] @ escape_string s @ [0x22]"

text \<open>
  \<^verbatim>\<open>JSON.stringify(v, null, gap)\<close> at the indentation \<open>indent\<close>; the empty \<open>gap\<close> is
  \<^verbatim>\<open>JSON.stringify(v)\<close>. A number that is not finite prints as \<^verbatim>\<open>null\<close>.
\<close>

fun serialize :: "jsstring \<Rightarrow> jsstring \<Rightarrow> jsval \<Rightarrow> jsstring" where
  "serialize gap indent JNull = S ''null''"
| "serialize gap indent (JBool b) = (if b then S ''true'' else S ''false'')"
| "serialize gap indent (JNum t) =
     (if t = S ''Infinity'' \<or> t = S ''-Infinity'' \<or> t = S ''NaN'' then S ''null'' else t)"
| "serialize gap indent (JStr s) = quote s"
| "serialize gap indent (JArr vs) =
     (let partial = map (serialize gap (indent @ gap)) vs
      in if partial = [] then S ''[]''
         else if gap = [] then S ''['' @ join partial (S '','') @ S '']''
         else S ''['' @ [LF] @ indent @ gap
              @ join partial (S '','' @ [LF] @ indent @ gap)
              @ [LF] @ indent @ S '']'')"
| "serialize gap indent (JObj props) =
     (let partial =
            map (\<lambda>(k, v). quote k @ S '':'' @ (if gap = [] then [] else S '' '')
                            @ serialize gap (indent @ gap) v) props
      in if partial = [] then S ''{}''
         else if gap = [] then S ''{'' @ join partial (S '','') @ S ''}''
         else S ''{'' @ [LF] @ indent @ gap
              @ join partial (S '','' @ [LF] @ indent @ gap)
              @ [LF] @ indent @ S ''}'')"

definition JSON_stringify :: "jsval \<Rightarrow> jsstring" where
  "JSON_stringify v = serialize [] [] v"

definition JSON_stringify_2 :: "jsval \<Rightarrow> jsstring" where
  "JSON_stringify_2 v = serialize (S ''  '') [] v"

text \<open>Truthiness, and the string a template literal prints for a value.\<close>

fun truthy :: "jsval \<Rightarrow> bool" where
  "truthy JNull = False"
| "truthy (JBool b) = b"
| "truthy (JNum t) = (t \<noteq> S ''0'' \<and> t \<noteq> S ''NaN'')"
| "truthy (JStr s) = (s \<noteq> [])"
| "truthy (JArr vs) = True"
| "truthy (JObj props) = True"

fun to_string :: "jsval \<Rightarrow> jsstring" where
  "to_string JNull = S ''null''"
| "to_string (JBool b) = (if b then S ''true'' else S ''false'')"
| "to_string (JNum t) = t"
| "to_string (JStr s) = s"
| "to_string (JArr vs) =
     join (map (\<lambda>v. if v = JNull then [] else to_string v) vs) (S '','')"
| "to_string (JObj props) = S ''[object Object]''"

text \<open>
  \<^verbatim>\<open>a === b\<close> for two values read from two different parsed documents: primitives are
  compared by value, and two objects or arrays are never the same object.
\<close>

fun is_object :: "jsval option \<Rightarrow> bool" where
  "is_object (Some (JArr vs)) = True"
| "is_object (Some (JObj props)) = True"
| "is_object v = False"

definition strict_equal :: "jsval option \<Rightarrow> jsval option \<Rightarrow> bool" where
  "strict_equal a b = (a = b \<and> \<not> is_object a)"

section \<open>Files, failures and the environment\<close>

text \<open>
  The state the operations work on: whether a \<^verbatim>\<open>.nit\<close> directory is found from the
  project directory upward, the working \<^verbatim>\<open>agent-card.json\<close> of the project directory,
  and the regular files below \<^verbatim>\<open>.nit/\<close> by their path relative to it (paths are not
  normalised). Files hold bytes. Directories are not part of the state: a path serves
  as a directory unless a regular file stands there. \<open>refused\<close> holds the requests the
  file system rejects for a reason outside the state (permissions, a full or read-only
  disk, a directory in the place of the file). \<open>journal\<close> records, in order, which
  files were written; nothing reads it.
\<close>

datatype target = CardFile | NitFile jsstring | NitDir jsstring

record world =
  nit_dir :: bool
  card_file :: "byte list option"
  nit_files :: "jsstring \<rightharpoonup> byte list"
  refused :: "target \<Rightarrow> bool"
  journal :: "target list"

definition readFile :: "world \<Rightarrow> jsstring \<Rightarrow> jsstring option" where
  "readFile w path = map_option utf8_decode (nit_files w path)"

text \<open>
  The directories a path goes through: its prefixes that end before a \<^verbatim>\<open>/\<close>. A path
  is blocked when a regular file stands at one of them.
\<close>

fun ancestors_from :: "jsstring \<Rightarrow> jsstring \<Rightarrow> jsstring list" where
  "ancestors_from pre [] = []"
| "ancestors_from pre (u # rest) =
     (if u = 0x2F \<and> pre \<noteq> [] then pre # ancestors_from (pre @ [u]) rest
      else ancestors_from (pre @ [u]) rest)"

definition ancestors :: "jsstring \<Rightarrow> jsstring list" where
  "ancestors path = ancestors_from [] path"

definition blocked :: "world \<Rightarrow> jsstring \<Rightarrow> bool" where
  "blocked w path = list_ex (\<lambda>a. nit_files w a \<noteq> None) (ancestors path)"

text \<open>
  Whether the file system carries out a request: writing the card file, writing a
  file below \<^verbatim>\<open>.nit/\<close>, or making a directory there with all the directories above
  it (which fails when a regular file stands at the path itself, too).
\<close>

fun accepts :: "world \<Rightarrow> target \<Rightarrow> bool" where
  "accepts w CardFile = (\<not> refused w CardFile)"
| "accepts w (NitFile path) = (\<not> refused w (NitFile path) \<and> \<not> blocked w path)"
| "accepts w (NitDir dir) = (\<not> refused w (NitDir dir) \<and> \<not> blocked w (dir @ S ''/''))"

text \<open>Every failure the operations raise, one constructor for each place.\<close>

datatype error =
    SystemError target
  | NotARepository
  | SyntaxError jsstring
  | TypeError
  | ObjectNotFound jsstring
  | MalformedCommit jsstring
  | HeadUnexpectedState jsstring
  | BranchRefMissing jsstring
  | HeadRefFormat jsstring
  | CannotReadCard
  | NothingToCommit
  | UncommittedChanges
  | BranchDoesNotExist jsstring
  | NoAgentId
  | NoIdentity
  | PrivateKeyNotFound
  | InvalidKey

text \<open>
  What the operations take from outside the repository: the JSON parser (\<open>Inl\<close> is the
  message of its \<^verbatim>\<open>SyntaxError\<close>), the clock in milliseconds, the skills that
  \<^verbatim>\<open>discoverSkills\<close> finds in the skill directories, the base name of the project
  directory, the Ed25519 signature of a message under a key pair (\<open>None\<close> when the key
  material is rejected), and the messages of the errors the runtime itself raises
  (those of the file system by the request that failed).
\<close>

record SkillMetadata =
  id' :: jsstring
  name :: jsstring
  description :: jsstring
  version :: "jsstring option"
  path :: jsstring

record env =
  JSON_parse :: "jsstring \<Rightarrow> jsstring + jsval"
  Date_now :: nat
  discoverSkills :: "SkillMetadata list"
  projectName :: jsstring
  ed25519_sign :: "jsstring \<Rightarrow> jsstring \<Rightarrow> byte list \<Rightarrow> byte list option"
  fs_error_message :: "target \<Rightarrow> jsstring"
  type_error_message :: jsstring

fun error_message :: "env \<Rightarrow> error \<Rightarrow> jsstring" where
  "error_message e (SystemError t) = fs_error_message e t"
| "error_message e NotARepository =
     S ''Not a nit repository (or any parent directory). Run `nit init` first.''"
| "error_message e (SyntaxError m) = m"
| "error_message e TypeError = type_error_message e"
| "error_message e (ObjectNotFound h) = S ''Object not found: '' @ h"
| "error_message e (MalformedCommit h) =
     S ''Malformed commit object '' @ h @ S '': missing card hash''"
| "error_message e (HeadUnexpectedState c) =
     S ''HEAD is in an unexpected state: '' @ [0x22] @ c @ [0x22]
       @ S ''. Only symbolic refs are supported.''"
| "error_message e (BranchRefMissing r) =
     S ''Branch ref '' @ r @ S '' does not exist. Repository may be empty.''"
| "error_message e (HeadRefFormat r) = S ''HEAD ref has unexpected format: '' @ r"
| "error_message e CannotReadCard = S ''Cannot read agent-card.json. Does it exist?''"
| "error_message e NothingToCommit =
     S ''Nothing to commit '' @ [0x2014] @ S '' agent card is unchanged.''"
| "error_message e UncommittedChanges =
     S ''You have uncommitted changes. Commit or discard them before switching branches.''"
| "error_message e (BranchDoesNotExist b) = S ''Branch '' @ [0x22] @ b @ [0x22] @ S '' does not exist.''"
| "error_message e NoAgentId = S ''No agent ID found. Run `nit init` to generate identity.''"
| "error_message e NoIdentity = S ''No identity found. Run `nit init` to generate a keypair.''"
| "error_message e PrivateKeyNotFound =
     S ''Private key not found at .nit/identity/agent.key. Regenerate with `nit init`.''"
| "error_message e InvalidKey = S ''Invalid JWK data''"

text \<open>
  An operation that fails leaves the state as it was; an operation of several steps
  returns its outcome together with the state it leaves.
\<close>

definition and_then :: "(error + 'a) \<Rightarrow> ('a \<Rightarrow> error + 'b) \<Rightarrow> error + 'b" where
  "and_then r f = (case r of Inl e \<Rightarrow> Inl e | Inr x \<Rightarrow> f x)"

text \<open>\<^verbatim>\<open>fs.writeFile(path, content, 'utf-8')\<close> and \<^verbatim>\<open>fs.mkdir(dir, { recursive: true })\<close>.\<close>

definition writeFile :: "jsstring \<Rightarrow> jsstring \<Rightarrow> world \<Rightarrow> error + world" where
  "writeFile file' content w =
     (if accepts w (NitFile file')
      then Inr (w\<lparr>nit_files := (nit_files w)(file' \<mapsto> utf8_encode content),
                  journal := journal w @ [NitFile file']\<rparr>)
      else Inl (SystemError (NitFile file')))"

definition mkdir :: "jsstring \<Rightarrow> world \<Rightarrow> error + world" where
  "mkdir dir w = (if accepts w (NitDir dir) then Inr w else Inl (SystemError (NitDir dir)))"

section \<open>The object store (objects.ts)\<close>

datatype object_type = Card | Commit

fun type_name :: "object_type \<Rightarrow> jsstring" where
  "type_name Card = S ''card''"
| "type_name Commit = S ''commit''"

definition hashObject :: "object_type \<Rightarrow> jsstring \<Rightarrow> jsstring" where
  "hashObject type content =
     (let buf = utf8_encode content;
          header = type_name type @ S '' '' @ decimal (length buf) @ [0];
          hash = createHash;
          hash = Hash_update_string hash header;
          hash = Hash_update hash buf
      in sha256_digest_hex hash)"

text \<open>
  The directory and the file of an object:
  \<^verbatim>\<open>objects/{first two characters}/{the rest}\<close>.
\<close>

definition objectDir :: "jsstring \<Rightarrow> jsstring" where
  "objectDir hex = S ''objects/'' @ slice hex 0 2"

definition objectFile :: "jsstring \<Rightarrow> jsstring" where
  "objectFile hex = S ''objects/'' @ slice hex 0 2 @ S ''/'' @ slice_from hex 2"

text \<open>
  \<open>writeObject\<close> returns at once when \<^verbatim>\<open>fs.access\<close> finds the file; when it does not, for
  whatever reason, the directory is made and the file written, and a failure of
  either is the failure of \<open>writeObject\<close>.
\<close>

definition writeObject :: "object_type \<Rightarrow> jsstring \<Rightarrow> world \<Rightarrow> error + jsstring \<times> world" where
  "writeObject type content w =
     (let hex = hashObject type content;
          dir = objectDir hex;
          file' = objectFile hex
      in if nit_files w file' \<noteq> None then Inr (hex, w)
         else
           and_then (mkdir dir w) (\<lambda>w.
           and_then (writeFile file' content w) (\<lambda>w. Inr (hex, w))))"

definition readObject :: "world \<Rightarrow> jsstring \<Rightarrow> error + jsstring" where
  "readObject w hash =
     (case readFile w (objectFile hash) of
        Some content \<Rightarrow> Inr content
      | None \<Rightarrow> Inl (ObjectNotFound hash))"

definition objectExists :: "world \<Rightarrow> jsstring \<Rightarrow> bool" where
  "objectExists w hash = (nit_files w (objectFile hash) \<noteq> None)"

text \<open>A commit without the \<^verbatim>\<open>type\<close> tag, which is always \<^verbatim>\<open>'commit'\<close>.\<close>

record NitCommit =
  hash :: jsstring
  card' :: jsstring
  parent :: "jsstring option"
  author :: jsstring
  timestamp :: number
  message :: jsstring

record CommitFields =
  cf_card :: jsstring
  cf_parent :: "jsstring option"
  cf_author :: jsstring
  cf_timestamp :: number
  cf_message :: jsstring

definition serializeCommit :: "CommitFields \<Rightarrow> jsstring" where
  "serializeCommit commit =
     (let lines = [S ''card '' @ cf_card commit];
          lines = (case cf_parent commit of
                     Some p \<Rightarrow> lines @ [S ''parent '' @ p]
                   | None \<Rightarrow> lines);
          lines = lines @ [S ''author '' @ cf_author commit @ S '' ''
                            @ number_to_string (cf_timestamp commit)];
          lines = lines @ [[]];
          lines = lines @ [cf_message commit]
      in join lines [LF])"

text \<open>
  The loop of \<^verbatim>\<open>parseCommit\<close> over the lines from index \<open>i\<close> on: it stops at the first
  empty line, where the message starts at the next index.
\<close>

record parse_state =
  ps_card :: jsstring
  ps_parent :: "jsstring option"
  ps_author :: jsstring
  ps_timestamp :: number
  ps_messageStart :: int

fun parse_lines :: "nat \<Rightarrow> jsstring list \<Rightarrow> parse_state \<Rightarrow> parse_state" where
  "parse_lines i [] st = st"
| "parse_lines i (line # rest) st =
     (if line = [] then st\<lparr>ps_messageStart := int i + 1\<rparr>
      else if startsWith line (S ''card '') then
        parse_lines (Suc i) rest (st\<lparr>ps_card := slice_from line 5\<rparr>)
      else if startsWith line (S ''parent '') then
        parse_lines (Suc i) rest (st\<lparr>ps_parent := Some (slice_from line 7)\<rparr>)
      else if startsWith line (S ''author '') then
        (let authorPart = slice_from line 7;
             lastSpace = lastIndexOf authorPart 0x20
         in parse_lines (Suc i) rest
              (st\<lparr>ps_author := slice authorPart 0 lastSpace,
                  ps_timestamp := parseInt (slice_from authorPart (lastSpace + 1))\<rparr>))
      else parse_lines (Suc i) rest st)"

definition parseCommit :: "jsstring \<Rightarrow> jsstring \<Rightarrow> error + NitCommit" where
  "parseCommit hash' raw =
     (let lines = split raw LF;
          st = parse_lines 0 lines
                 \<lparr>ps_card = [], ps_parent = None, ps_author = [], ps_timestamp = Num 0,
                  ps_messageStart = - 1\<rparr>
      in if ps_card st = [] then Inl (MalformedCommit hash')
         else
           Inr \<lparr>hash = hash', card' = ps_card st, parent = ps_parent st,
                author = ps_author st, timestamp = ps_timestamp st,
                message = (if ps_messageStart st \<ge> 0
                           then join (drop (nat (ps_messageStart st)) lines) [LF]
                           else [])\<rparr>)"

section \<open>Branches and HEAD (refs.ts)\<close>

definition getHead :: "world \<Rightarrow> error + jsstring" where
  "getHead w =
     (case readFile w (S ''HEAD'') of
        None \<Rightarrow> Inl (SystemError (NitFile (S ''HEAD'')))
      | Some raw \<Rightarrow>
          (let content = trim raw
           in if \<not> startsWith content (S ''ref: '') then Inl (HeadUnexpectedState content)
              else Inr (slice_from content 5)))"

definition resolveHead :: "world \<Rightarrow> error + jsstring" where
  "resolveHead w =
     and_then (getHead w) (\<lambda>ref.
       case readFile w ref of
         Some raw \<Rightarrow> Inr (trim raw)
       | None \<Rightarrow> Inl (BranchRefMissing ref))"

definition getCurrentBranch :: "world \<Rightarrow> error + jsstring" where
  "getCurrentBranch w =
     and_then (getHead w) (\<lambda>ref.
       let prefix = S ''refs/heads/''
       in if \<not> startsWith ref prefix then Inl (HeadRefFormat ref)
          else Inr (slice_from ref (int (length prefix))))"

definition setBranch :: "jsstring \<Rightarrow> jsstring \<Rightarrow> world \<Rightarrow> error + world" where
  "setBranch branch commitHash w =
     and_then (mkdir (S ''refs/heads'') w) (\<lambda>w.
       writeFile (S ''refs/heads/'' @ branch) (commitHash @ [LF]) w)"

definition getBranch :: "world \<Rightarrow> jsstring \<Rightarrow> jsstring option" where
  "getBranch w branch = map_option trim (readFile w (S ''refs/heads/'' @ branch))"

definition setHead :: "jsstring \<Rightarrow> world \<Rightarrow> error + world" where
  "setHead branch w = writeFile (S ''HEAD'') (S ''ref: refs/heads/'' @ branch @ [LF]) w"

section \<open>The diff engine (diff.ts)\<close>

record FieldDiff =
  field :: jsstring
  old :: "jsval option"
  new :: "jsval option"

record DiffResult =
  changed :: bool
  fields' :: "FieldDiff list"
  skillsAdded :: "jsval option list"
  skillsRemoved :: "jsval option list"
  skillsModified :: "jsval option list"

text \<open>Reading a property raises a \<^verbatim>\<open>TypeError\<close> on \<^verbatim>\<open>null\<close>.\<close>

definition property :: "jsval \<Rightarrow> jsstring \<Rightarrow> error + jsval option" where
  "property v key = (case get_property v key of None \<Rightarrow> Inl TypeError | Some x \<Rightarrow> Inr x)"

definition scalarFields :: "jsstring list" where
  "scalarFields =
     [S ''protocolVersion'', S ''name'', S ''description'', S ''version'', S ''url'',
      S ''publicKey'', S ''iconUrl'', S ''documentationUrl'']"

definition arrayFields :: "jsstring list" where
  "arrayFields = [S ''defaultInputModes'', S ''defaultOutputModes'']"

text \<open>The loop over the scalar fields: an entry for each field whose values differ.\<close>

fun diff_scalars :: "jsval \<Rightarrow> jsval \<Rightarrow> jsstring list \<Rightarrow> error + FieldDiff list" where
  "diff_scalars oldCard newCard [] = Inr []"
| "diff_scalars oldCard newCard (f # fs) =
     and_then (property oldCard f) (\<lambda>oldVal.
     and_then (property newCard f) (\<lambda>newVal.
     and_then (diff_scalars oldCard newCard fs) (\<lambda>rest.
       Inr (if \<not> strict_equal oldVal newVal
            then \<lparr>field = f, old = oldVal, new = newVal\<rparr> # rest
            else rest))))"

text \<open>\<^verbatim>\<open>v ?? null\<close>, and \<^verbatim>\<open>JSON.stringify\<close> of a value that may be \<^verbatim>\<open>undefined\<close>.\<close>

fun or_null :: "jsval option \<Rightarrow> jsval" where
  "or_null None = JNull"
| "or_null (Some v) = v"

definition diff_provider :: "jsval \<Rightarrow> jsval \<Rightarrow> error + FieldDiff list" where
  "diff_provider oldCard newCard =
     and_then (property oldCard (S ''provider'')) (\<lambda>oldVal.
     and_then (property newCard (S ''provider'')) (\<lambda>newVal.
       let oldProvider = JSON_stringify (or_null oldVal);
           newProvider = JSON_stringify (or_null newVal)
       in Inr (if oldProvider \<noteq> newProvider
               then [\<lparr>field = S ''provider'', old = oldVal, new = newVal\<rparr>]
               else [])))"

fun diff_arrays :: "jsval \<Rightarrow> jsval \<Rightarrow> jsstring list \<Rightarrow> error + FieldDiff list" where
  "diff_arrays oldCard newCard [] = Inr []"
| "diff_arrays oldCard newCard (f # fs) =
     and_then (property oldCard f) (\<lambda>oldVal.
     and_then (property newCard f) (\<lambda>newVal.
     and_then (diff_arrays oldCard newCard fs) (\<lambda>rest.
       let oldArr = map_option JSON_stringify oldVal;
           newArr = map_option JSON_stringify newVal
       in Inr (if oldArr \<noteq> newArr
               then \<lparr>field = f, old = oldVal, new = newVal\<rparr> # rest
               else rest))))"

text \<open>
  A \<^verbatim>\<open>Map\<close> keeps its keys in the order of their first insertion; a later entry with a
  key it has replaces the value. Keys are compared as \<^verbatim>\<open>===\<close> compares them.
\<close>

type_synonym skill_map = "(jsval option \<times> jsval) list"

fun map_has :: "skill_map \<Rightarrow> jsval option \<Rightarrow> bool" where
  "map_has [] key = False"
| "map_has ((k, v) # m) key = (strict_equal k key \<or> map_has m key)"

fun map_get :: "skill_map \<Rightarrow> jsval option \<Rightarrow> jsval option" where
  "map_get [] key = None"
| "map_get ((k, v) # m) key = (if strict_equal k key then Some v else map_get m key)"

fun map_set :: "skill_map \<Rightarrow> jsval option \<Rightarrow> jsval \<Rightarrow> skill_map" where
  "map_set [] key v = [(key, v)]"
| "map_set ((k, w) # m) key v =
     (if strict_equal k key then (k, v) # m else (k, w) # map_set m key v)"

text \<open>
  \<^verbatim>\<open>new Map(card.skills.map((s) => [s.id, s]))\<close>: a \<^verbatim>\<open>TypeError\<close> unless \<^verbatim>\<open>skills\<close> is an
  array none of whose elements is \<^verbatim>\<open>null\<close>.
\<close>

fun skill_entries :: "jsval list \<Rightarrow> error + skill_map" where
  "skill_entries [] = Inr []"
| "skill_entries (s # ss) =
     and_then (property s (S ''id'')) (\<lambda>i.
     and_then (skill_entries ss) (\<lambda>rest. Inr ((i, s) # rest)))"

definition skills_of :: "jsval \<Rightarrow> error + jsval list" where
  "skills_of c =
     and_then (property c (S ''skills'')) (\<lambda>v.
       case v of Some (JArr ss) \<Rightarrow> Inr ss | _ \<Rightarrow> Inl TypeError)"

definition skillMap :: "jsval \<Rightarrow> error + skill_map" where
  "skillMap c =
     and_then (skills_of c) (\<lambda>ss.
     and_then (skill_entries ss) (\<lambda>entries.
       Inr (foldl (\<lambda>m (k, v). map_set m k v) [] entries)))"

definition skillsEqual :: "jsval \<Rightarrow> jsval \<Rightarrow> bool" where
  "skillsEqual a b = (JSON_stringify a = JSON_stringify b)"

definition diffCards :: "jsval \<Rightarrow> jsval \<Rightarrow> error + DiffResult" where
  "diffCards oldCard newCard =
     and_then (diff_scalars oldCard newCard scalarFields) (\<lambda>scalars.
     and_then (diff_provider oldCard newCard) (\<lambda>provider.
     and_then (diff_arrays oldCard newCard arrayFields) (\<lambda>arrays.
     and_then (skillMap oldCard) (\<lambda>oldSkillMap.
     and_then (skillMap newCard) (\<lambda>newSkillMap.
       let entries = scalars @ provider @ arrays;
           added = filter (\<lambda>i. \<not> map_has oldSkillMap i) (map fst newSkillMap);
           removed = filter (\<lambda>i. \<not> map_has newSkillMap i) (map fst oldSkillMap);
           modified =
             map fst
               (filter
                  (\<lambda>(i, newSkill).
                     case map_get oldSkillMap i of
                       Some oldSkill \<Rightarrow> truthy oldSkill \<and> \<not> skillsEqual oldSkill newSkill
                     | None \<Rightarrow> False)
                  newSkillMap)
       in Inr \<lparr>changed = (entries \<noteq> [] \<or> added \<noteq> [] \<or> removed \<noteq> [] \<or> modified \<noteq> []),
                fields' = entries, skillsAdded = added, skillsRemoved = removed,
                skillsModified = modified\<rparr>)))))"

section \<open>Skill pointers (skills.ts)\<close>

text \<open>
  \<^verbatim>\<open>new Map(discovered.map((s) => [s.id, s]))\<close> and its \<^verbatim>\<open>get\<close>: the keys are strings, so
  only a string finds an entry, and of two skills with one id the later one stays.
\<close>

definition metadata_get :: "SkillMetadata list \<Rightarrow> jsval option \<Rightarrow> SkillMetadata option" where
  "metadata_get discovered key =
     (case key of
        Some (JStr i) \<Rightarrow> map_of (rev (map (\<lambda>s. (id' s, s)) discovered)) i
      | _ \<Rightarrow> None)"

definition resolve_skill :: "SkillMetadata list \<Rightarrow> jsval \<Rightarrow> error + jsval" where
  "resolve_skill discovered skill =
     and_then (property skill (S ''id'')) (\<lambda>i.
       case metadata_get discovered i of
         None \<Rightarrow> Inr skill
       | Some meta \<Rightarrow>
           (case skill of
              JObj props \<Rightarrow>
                Inr (JObj (set_property (set_property props (S ''name'') (JStr (name meta)))
                             (S ''description'') (JStr (description meta))))
            | _ \<Rightarrow> Inr skill))"

fun resolve_skills :: "SkillMetadata list \<Rightarrow> jsval list \<Rightarrow> error + jsval list" where
  "resolve_skills discovered [] = Inr []"
| "resolve_skills discovered (s # ss) =
     and_then (resolve_skill discovered s) (\<lambda>s'.
     and_then (resolve_skills discovered ss) (\<lambda>rest. Inr (s' # rest)))"

definition resolveSkillPointers :: "env \<Rightarrow> jsval \<Rightarrow> error + jsval" where
  "resolveSkillPointers e c =
     (let discovered = discoverSkills e
      in and_then (skills_of c) (\<lambda>ss.
         and_then (resolve_skills discovered ss) (\<lambda>resolvedSkills.
           case c of
             JObj props \<Rightarrow> Inr (JObj (set_property props (S ''skills'') (JArr resolvedSkills)))
           | _ \<Rightarrow> Inl TypeError)))"

section \<open>The operations on a repository (index.ts)\<close>

text \<open>
  \<open>findNitDir\<close> walks up from the project directory; the state says whether it finds a
  \<^verbatim>\<open>.nit\<close> directory, which is then the one the operation works on.
\<close>

definition findNitDir :: "world \<Rightarrow> error + unit" where
  "findNitDir w = (if nit_dir w then Inr () else Inl NotARepository)"

definition readWorkingCard :: "env \<Rightarrow> world \<Rightarrow> error + jsval" where
  "readWorkingCard e w =
     (case card_file w of
        None \<Rightarrow> Inl CannotReadCard
      | Some bytes \<Rightarrow>
          (case JSON_parse e (utf8_decode bytes) of
             Inl m \<Rightarrow> Inl CannotReadCard
           | Inr c \<Rightarrow> Inr c))"

definition writeWorkingCard :: "jsval \<Rightarrow> world \<Rightarrow> error + world" where
  "writeWorkingCard c w =
     (if accepts w CardFile
      then Inr (w\<lparr>card_file := Some (utf8_encode (JSON_stringify_2 c @ [LF])),
                  journal := journal w @ [CardFile]\<rparr>)
      else Inl (SystemError CardFile))"

definition getCardAtCommit :: "env \<Rightarrow> world \<Rightarrow> jsstring \<Rightarrow> error + jsval" where
  "getCardAtCommit e w commitHash =
     and_then (readObject w commitHash) (\<lambda>commitRaw.
     and_then (parseCommit commitHash commitRaw) (\<lambda>commit'.
     and_then (readObject w (card' commit')) (\<lambda>cardRaw.
       case JSON_parse e cardRaw of
         Inl m \<Rightarrow> Inl (SyntaxError m)
       | Inr c \<Rightarrow> Inr c)))"

text \<open>
  \<^verbatim>\<open>card.name || basename(projectDir)\<close>, and the base name when the card cannot be read.
  The name is given as the template literal of \<open>serializeCommit\<close> prints it.
\<close>

definition getAuthorName :: "env \<Rightarrow> world \<Rightarrow> jsstring" where
  "getAuthorName e w =
     (case and_then (readWorkingCard e w) (\<lambda>c. property c (S ''name'')) of
        Inr (Some v) \<Rightarrow> if truthy v then to_string v else projectName e
      | _ \<Rightarrow> projectName e)"

text \<open>
  The check of \<open>commit\<close> against the tip of the current branch; a branch file that is
  missing or empty gives no tip.
\<close>

definition check_unchanged :: "world \<Rightarrow> jsstring option \<Rightarrow> jsstring \<Rightarrow> error + unit" where
  "check_unchanged w parentHash cardHash =
     (case parentHash of
        None \<Rightarrow> Inr ()
      | Some h \<Rightarrow>
          if h = [] then Inr ()
          else
            and_then (readObject w h) (\<lambda>parentRaw.
            and_then (parseCommit h parentRaw) (\<lambda>parentCommit.
              if card' parentCommit = cardHash then Inl NothingToCommit else Inr ())))"

definition commit :: "env \<Rightarrow> jsstring \<Rightarrow> world \<Rightarrow> (error + NitCommit) \<times> world" where
  "commit e message' w =
     (case and_then (findNitDir w) (\<lambda>u.
           and_then (readWorkingCard e w) (resolveSkillPointers e)) of
        Inl err \<Rightarrow> (Inl err, w)
      | Inr c \<Rightarrow>
          (case writeWorkingCard c w of
             Inl err \<Rightarrow> (Inl err, w)
           | Inr w \<Rightarrow>
               (case writeObject Card (JSON_stringify_2 c) w of
                  Inl err \<Rightarrow> (Inl err, w)
                | Inr (cardHash, w) \<Rightarrow>
                    (case getCurrentBranch w of
                       Inl err \<Rightarrow> (Inl err, w)
                     | Inr currentBranch \<Rightarrow>
                         (let parentHash = getBranch w currentBranch
                          in case check_unchanged w parentHash cardHash of
                               Inl err \<Rightarrow> (Inl err, w)
                             | Inr u \<Rightarrow>
                                 (let author' = getAuthorName e w;
                                      seconds = Num (int (Date_now e div 1000));
                                      commitContent =
                                        serializeCommit
                                          \<lparr>cf_card = cardHash, cf_parent = parentHash,
                                           cf_author = author', cf_timestamp = seconds,
                                           cf_message = message'\<rparr>
                                  in case writeObject Commit commitContent w of
                                       Inl err \<Rightarrow> (Inl err, w)
                                     | Inr (commitHash, w) \<Rightarrow>
                                         (case setBranch currentBranch commitHash w of
                                            Inl err \<Rightarrow> (Inl err, w)
                                          | Inr w \<Rightarrow>
                                              (Inr \<lparr>hash = commitHash, card' = cardHash,
                                                     parent = parentHash, author = author',
                                                     timestamp = seconds,
                                                     message = message'\<rparr>, w))))))))"

text \<open>
  The loop of \<open>log\<close>: it runs while there is a hash to follow and fewer than \<open>limit\<close>
  commits are collected.
\<close>

function log_loop ::
  "world \<Rightarrow> nat \<Rightarrow> jsstring option \<Rightarrow> NitCommit list \<Rightarrow> error + NitCommit list" where
  "log_loop w limit h commits =
     (case h of
        None \<Rightarrow> Inr commits
      | Some hash' \<Rightarrow>
          if hash' \<noteq> [] \<and> length commits < limit then
            (case readObject w hash' of
               Inl err \<Rightarrow> Inl err
             | Inr raw \<Rightarrow>
                 (case parseCommit hash' raw of
                    Inl err \<Rightarrow> Inl err
                  | Inr c \<Rightarrow> log_loop w limit (parent c) (commits @ [c])))
          else Inr commits)"
  by pat_completeness auto
termination
  by (relation "measure (\<lambda>(w, limit, h, commits). limit - length commits)") auto

declare log_loop.simps [simp del]

definition log :: "world \<Rightarrow> nat option \<Rightarrow> error + NitCommit list" where
  "log w count' =
     and_then (findNitDir w) (\<lambda>u.
     and_then (getCurrentBranch w) (\<lambda>currentBranch.
       let h = getBranch w currentBranch;
           limit = (case count' of Some n \<Rightarrow> n | None \<Rightarrow> 50)
       in log_loop w limit h []))"

text \<open>
  The guard of \<open>checkout\<close>: the error of uncommitted changes is raised again, any other
  error raised while comparing is dropped.
\<close>

definition uncommitted_guard :: "env \<Rightarrow> world \<Rightarrow> error + unit" where
  "uncommitted_guard e w =
     (case
        and_then (resolveHead w) (\<lambda>headHash.
        and_then (getCardAtCommit e w headHash) (\<lambda>headCard.
        and_then (readWorkingCard e w) (\<lambda>workingCard.
        and_then (diffCards headCard workingCard) (\<lambda>d.
          if changed d then Inl UncommittedChanges else Inr ()))))
      of
        Inl err \<Rightarrow>
          if string_includes (error_message e err) (S ''uncommitted changes'') then Inl err
          else Inr ()
      | Inr u \<Rightarrow> Inr ())"

definition checkout :: "env \<Rightarrow> jsstring \<Rightarrow> world \<Rightarrow> (error + unit) \<times> world" where
  "checkout e branchName w =
     (case and_then (findNitDir w) (\<lambda>u. uncommitted_guard e w) of
        Inl err \<Rightarrow> (Inl err, w)
      | Inr u \<Rightarrow>
          (case getBranch w branchName of
             None \<Rightarrow> (Inl (BranchDoesNotExist branchName), w)
           | Some targetHash \<Rightarrow>
               if targetHash = [] then (Inl (BranchDoesNotExist branchName), w)
               else
                 (case getCardAtCommit e w targetHash of
                    Inl err \<Rightarrow> (Inl err, w)
                  | Inr targetCard \<Rightarrow>
                      (case writeWorkingCard targetCard w of
                         Inl err \<Rightarrow> (Inl err, w)
                       | Inr w \<Rightarrow>
                           (case setHead branchName w of
                              Inl err \<Rightarrow> (Inl err, w)
                            | Inr w \<Rightarrow> (Inr (), w))))))"

section \<open>Identity (identity.ts)\<close>

definition loadPublicKey :: "world \<Rightarrow> error + jsstring" where
  "loadPublicKey w =
     (case readFile w (S ''identity/agent.pub'') of
        Some raw \<Rightarrow> Inr (trim raw)
      | None \<Rightarrow> Inl NoIdentity)"

text \<open>
  \<^verbatim>\<open>b64.replace(/\+/g, '-').replace(/\//g, '_').replace(/=+$/, '')\<close>.
\<close>

definition base64ToBase64url :: "jsstring \<Rightarrow> jsstring" where
  "base64ToBase64url b64 =
     (let s = map (\<lambda>u. if u = 0x2B then 0x2D else u) b64;
          s = map (\<lambda>u. if u = 0x2F then 0x5F else u) s
      in rev (dropWhile (\<lambda>u. u = 0x3D) (rev s)))"

text \<open>The key pair of \<open>loadPrivateKey\<close>, as the two fields of its JWK.\<close>

definition loadPrivateKey :: "world \<Rightarrow> error + jsstring \<times> jsstring" where
  "loadPrivateKey w =
     and_then (loadPublicKey w) (\<lambda>pubBase64.
       case readFile w (S ''identity/agent.key'') of
         None \<Rightarrow> Inl PrivateKeyNotFound
       | Some raw \<Rightarrow>
           (let privBase64 = trim raw
            in Inr (base64ToBase64url pubBase64, base64ToBase64url privBase64)))"

text \<open>\<^verbatim>\<open>buf.toString('base64')\<close>.\<close>

definition base64_digit :: "nat \<Rightarrow> 16 word" where
  "base64_digit n =
     S ''ABCDEFGHIJKLMNOPQRSTUVWXYZabcdefghijklmnopqrstuvwxyz0123456789+/'' ! n"

fun base64_encode :: "byte list \<Rightarrow> jsstring" where
  "base64_encode [] = []"
| "base64_encode [a] =
     [base64_digit (unat (drop_bit 2 a)), base64_digit (unat (push_bit 4 (a AND 0x03))),
      0x3D, 0x3D]"
| "base64_encode [a, b] =
     [base64_digit (unat (drop_bit 2 a)),
      base64_digit (unat (push_bit 4 (a AND 0x03) OR drop_bit 4 b)),
      base64_digit (unat (push_bit 2 (b AND 0x0F))), 0x3D]"
| "base64_encode (a # b # c # rest) =
     [base64_digit (unat (drop_bit 2 a)),
      base64_digit (unat (push_bit 4 (a AND 0x03) OR drop_bit 4 b)),
      base64_digit (unat (push_bit 2 (b AND 0x0F) OR drop_bit 6 c)),
      base64_digit (unat (c AND 0x3F))] @ base64_encode rest"

definition signMessage :: "env \<Rightarrow> world \<Rightarrow> jsstring \<Rightarrow> error + jsstring" where
  "signMessage e w message' =
     and_then (loadPrivateKey w) (\<lambda>(x, d).
       case ed25519_sign e x d (utf8_encode message') of
         None \<Rightarrow> Inl InvalidKey
       | Some sig \<Rightarrow> Inr (base64_encode sig))"

definition NIT_NAMESPACE :: jsstring where
  "NIT_NAMESPACE = S ''801ba518-f326-47e5-97c9-d1efd1865a19''"

definition loadAgentId :: "world \<Rightarrow> error + jsstring" where
  "loadAgentId w =
     (case readFile w (S ''identity/agent-id'') of
        Some raw \<Rightarrow> Inr (trim raw)
      | None \<Rightarrow> Inl NoAgentId)"

text \<open>
  \<^verbatim>\<open>Buffer.from(hex, 'hex')\<close>: one byte for each pair of hexadecimal digits, up to the
  first pair that is not one.
\<close>

definition hex_value :: "16 word \<Rightarrow> nat option" where
  "hex_value u =
     (if 0x30 \<le> u \<and> u \<le> 0x39 then Some (unat u - 48)
      else if 0x61 \<le> u \<and> u \<le> 0x66 then Some (unat u - 87)
      else if 0x41 \<le> u \<and> u \<le> 0x46 then Some (unat u - 55)
      else None)"

fun hex_decode :: "jsstring \<Rightarrow> byte list" where
  "hex_decode (a # b # rest) =
     (case (hex_value a, hex_value b) of
        (Some x, Some y) \<Rightarrow> of_nat (16 * x + y) # hex_decode rest
      | _ \<Rightarrow> [])"
| "hex_decode s = []"

definition parseUuid :: "jsstring \<Rightarrow> byte list" where
  "parseUuid uuid = (let hex = filter (\<lambda>u. u \<noteq> 0x2D) uuid in hex_decode hex)"

definition formatUuid :: "byte list \<Rightarrow> jsstring" where
  "formatUuid bytes =
     (let hex = hex_encode bytes
      in join [slice hex 0 8, slice hex 8 12, slice hex 12 16, slice hex 16 20,
               slice hex 20 32] (S ''-''))"

definition uuidv5 :: "jsstring \<Rightarrow> jsstring \<Rightarrow> jsstring" where
  "uuidv5 name' namespace =
     (let namespaceBytes = parseUuid namespace;
          nameBytes = utf8_encode name';
          data = namespaceBytes @ nameBytes;
          hash' = sha1_digest (Hash_update createHash data);
          uuid = take 16 hash';
          uuid = uuid[6 := (uuid ! 6 AND 0x0F) OR 0x50];
          uuid = uuid[8 := (uuid ! 8 AND 0x3F) OR 0x80]
      in formatUuid uuid)"

definition deriveAgentId :: "jsstring \<Rightarrow> jsstring" where
  "deriveAgentId publicKeyField = uuidv5 publicKeyField NIT_NAMESPACE"

section \<open>Signed requests (remote.ts)\<close>

definition sha256Hex :: "jsstring \<Rightarrow> jsstring" where
  "sha256Hex data = sha256_digest_hex (Hash_update_string createHash data)"

record AuthHeaders =
  X_Nit_Agent_Id :: jsstring
  X_Nit_Timestamp :: jsstring
  X_Nit_Signature :: jsstring

definition buildAuthHeaders ::
  "env \<Rightarrow> world \<Rightarrow> jsstring \<Rightarrow> jsstring \<Rightarrow> jsstring option \<Rightarrow> error + AuthHeaders" where
  "buildAuthHeaders e w method path' body =
     and_then (loadAgentId w) (\<lambda>agentId.
       let timestamp' = number_to_string (Num (int (Date_now e div 1000)));
           message' = method @ [LF] @ path' @ [LF] @ agentId @ [LF] @ timestamp';
           message' = (case body of
                         Some b \<Rightarrow> message' @ [LF] @ sha256Hex b
                       | None \<Rightarrow> message')
       in and_then (signMessage e w message') (\<lambda>signature.
            Inr \<lparr>X_Nit_Agent_Id = agentId, X_Nit_Timestamp = timestamp',
                 X_Nit_Signature = signature\<rparr>))"

section \<open>An example repository\<close>

text \<open>
  The card that \<^verbatim>\<open>nit init\<close> writes in a directory named \<^verbatim>\<open>agent\<close>, with a provider, and
  three providers: one, the same with its keys in the other order, and another.
\<close>

definition example_card :: "jsval \<Rightarrow> jsval" where
  "example_card provider =
     JObj [(S ''protocolVersion'', JStr (S ''0.3.0'')),
           (S ''name'', JStr (S ''agent'')),
           (S ''description'', JStr (S ''AI agent working in agent'')),
           (S ''version'', JStr (S ''1.0.0'')),
           (S ''url'', JStr []),
           (S ''defaultInputModes'', JArr [JStr (S ''text/plain'')]),
           (S ''defaultOutputModes'', JArr [JStr (S ''text/plain'')]),
           (S ''skills'', JArr []),
           (S ''provider'', provider)]"

definition acme :: jsval where
  "acme = JObj [(S ''organization'', JStr (S ''Acme'')),
                (S ''url'', JStr (S ''https://acme.example''))]"

definition acme_reordered :: jsval where
  "acme_reordered = JObj [(S ''url'', JStr (S ''https://acme.example'')),
                          (S ''organization'', JStr (S ''Acme''))]"

definition newtype :: jsval where
  "newtype = JObj [(S ''organization'', JStr (S ''Newtype''))]"

text \<open>
  \<^verbatim>\<open>JSON.parse\<close> on the texts of the example: the two cards as \<open>JSON_stringify_2\<close>
  prints them, with or without a final line feed.
\<close>

definition example_parse :: "jsstring \<Rightarrow> jsstring + jsval" where
  "example_parse s =
     (if s = JSON_stringify_2 (example_card acme)
           \<or> s = JSON_stringify_2 (example_card acme) @ [LF]
      then Inr (example_card acme)
      else if s = JSON_stringify_2 (example_card newtype)
                \<or> s = JSON_stringify_2 (example_card newtype) @ [LF]
      then Inr (example_card newtype)
      else Inl (S ''Unexpected token''))"

text \<open>
  The identity of the example and a signer that knows one message, the canonical
  message of a \<^verbatim>\<open>PUT\<close> of the branch \<^verbatim>\<open>main\<close> without a body at the time of the example.
\<close>

definition example_agent_id :: jsstring where
  "example_agent_id = S ''6e59f5df-158d-561f-b36c-56704565752b''"

definition example_sign :: "jsstring \<Rightarrow> jsstring \<Rightarrow> byte list \<Rightarrow> byte list option" where
  "example_sign x d m =
     (if m = utf8_encode (S ''PUT'' @ [LF] @ S ''/agent-card/branches/main'' @ [LF]
                          @ example_agent_id @ [LF] @ S ''1772064000'')
      then Some (replicate 64 0x2A) else None)"

definition example_env :: env where
  "example_env =
     \<lparr>JSON_parse = example_parse, Date_now = 1772064000123, discoverSkills = [],
      projectName = S ''agent'', ed25519_sign = example_sign,
      fs_error_message = (\<lambda>t. S ''ENOENT: no such file or directory''),
      type_error_message = S ''Cannot read properties of undefined''\<rparr>"

text \<open>
  A repository with two branches. The tip of \<^verbatim>\<open>main\<close> is a first commit that names the
  card object \<open>cardRef\<close>, where the card with the provider \<open>acme\<close> is stored; the tip of
  \<^verbatim>\<open>dev\<close> is a second commit, of the card with the provider \<open>newtype\<close>. HEAD is on
  \<^verbatim>\<open>main\<close>, and the working card is the card with the provider \<open>acme\<close>. The names of
  the commits and of the second card are their digests when \<open>cardRef\<close> is
  \<open>example_digest\<close>, the digest of the first card.
\<close>

definition example_main :: jsstring where
  "example_main = S ''1e3bd0cc9de439d0fcaca1ce33c9792239d0c84c3412d723296184785e68bd53''"

definition example_dev :: jsstring where
  "example_dev = S ''0272875ccbd1da692effc42c17c96e4f7ff8deb0dc011bcd3c4a3abe5844db87''"

definition example_digest :: jsstring where
  "example_digest = hashObject Card (JSON_stringify_2 (example_card acme))"

definition example_repo :: "jsstring \<Rightarrow> world" where
  "example_repo cardRef =
     \<lparr>nit_dir = True,
      card_file = Some (utf8_encode (JSON_stringify_2 (example_card acme) @ [LF])),
      nit_files =
        [objectFile cardRef \<mapsto> utf8_encode (JSON_stringify_2 (example_card acme)),
         S ''HEAD'' \<mapsto> utf8_encode (S ''ref: refs/heads/main'' @ [LF]),
         S ''refs/heads/main'' \<mapsto> utf8_encode (example_main @ [LF]),
         S ''refs/heads/dev'' \<mapsto> utf8_encode (example_dev @ [LF]),
         S ''identity/agent-id'' \<mapsto> utf8_encode (example_agent_id @ [LF]),
         S ''identity/agent.pub'' \<mapsto>
           utf8_encode (S ''11qYAYKxCrfVS/7TyWQHOg7hcvPapiMlrwIaaPcHURo='' @ [LF]),
         S ''identity/agent.key'' \<mapsto>
           utf8_encode (S ''nWGxne/9WmC6hEr0kuwsxERJxWl7MmkZcDusAxyuf2A='' @ [LF]),
         objectFile example_main \<mapsto>
           utf8_encode
             (serializeCommit
                \<lparr>cf_card = cardRef, cf_parent = None, cf_author = S ''agent'',
                 cf_timestamp = Num 1772000000, cf_message = S ''Initial commit''\<rparr>),
         objectFile example_dev \<mapsto>
           utf8_encode
             (serializeCommit
                \<lparr>cf_card =
                   S ''118341060e757fce637ccb5b506698da9c90880b34f12f7c3b2e5ad6dbd34a44'',
                 cf_parent = Some example_main, cf_author = S ''agent'',
                 cf_timestamp = Num 1772030000, cf_message = S ''Newtype provider''\<rparr>),
         S ''objects/11/8341060e757fce637ccb5b506698da9c90880b34f12f7c3b2e5ad6dbd34a44'' \<mapsto>
           utf8_encode (JSON_stringify_2 (example_card newtype))],
      refused = (\<lambda>t. False), journal = []\<rparr>"

section \<open>Properties of the encodings and of hashing\<close>

lemma S_Nil [simp]: "S [] = []"
  by (simp add: S_def)

lemma S_Cons [simp]: "S (c # cs) = of_nat (of_char c) # S cs"
  by (simp add: S_def)

lemma length_S [simp]: "length (S cs) = length cs"
  by (simp add: S_def)

lemma utf8_encode_append:
  "(xs = [] \<or> \<not> is_high_surrogate (last xs)) \<Longrightarrow>
   utf8_encode (xs @ ys) = utf8_encode xs @ utf8_encode ys"
proof (induction xs rule: utf8_encode.induct)
  case 1
  then show ?case by simp
next
  case (2 u)
  then show ?case by (cases ys) auto
next
  case (3 u v vs)
  then show ?case by (auto split: if_splits)
qed

lemma length_sha256_output: "length (sha256_output st) = 32"
  by (cases st rule: sha256_output.cases) (simp add: word_bytes_def)

lemma length_sha256 [simp]: "length (sha256 m) = 32"
  by (simp add: sha256_def length_sha256_output)

lemma length_sha1_output: "length (sha1_output st) = 20"
  by (cases st rule: sha1_output.cases) (simp add: word_bytes_def)

lemma length_sha1 [simp]: "length (sha1 m) = 20"
  by (simp add: sha1_def length_sha1_output)

lemma hex_digits_lower: "list_all is_lower_hex (S ''0123456789abcdef'')"
  by (simp add: is_lower_hex_def)

lemma hex_digit_lower: "n < 16 \<Longrightarrow> is_lower_hex (hex_digit n)"
  using hex_digits_lower unfolding hex_digit_def list_all_length by simp

lemma hex_byte_lower: "list_all is_lower_hex (hex_byte b)"
proof -
  have "unat b < 256"
    using unsigned_less [of b] by simp
  then have "unat b div 16 < 16"
    by simp
  then show ?thesis
    by (simp add: hex_byte_def hex_digit_lower)
qed

lemma hex_encode_lower: "list_all is_lower_hex (hex_encode bs)"
  by (induction bs) (simp_all add: hex_encode_def hex_byte_lower)

lemma length_hex_encode [simp]: "length (hex_encode bs) = 2 * length bs"
  by (induction bs) (simp_all add: hex_encode_def hex_byte_def)

text \<open>
  C1. \<open>hashObject\<close> of a type \<open>k\<close> and a content \<open>c\<close> is the lowercase hex encoding of the
  SHA-256 digest of the UTF-8 bytes of the string \<open>"{k} {n}\0{c}"\<close>, where \<open>n\<close> is the number
  of UTF-8 bytes of \<open>c\<close>: 64 characters, each one of \<open>0-9a-f\<close>. Being a function of
  \<open>k\<close> and \<open>c\<close> alone, it gives equal digests on equal inputs.
\<close>

theorem hashObject_digest:
  "hashObject k c =
     hex_encode (sha256 (utf8_encode
       (type_name k @ S '' '' @ decimal (length (utf8_encode c)) @ [0] @ c)))
   \<and> length (hashObject k c) = 64
   \<and> list_all is_lower_hex (hashObject k c)"
proof -
  let ?header = "type_name k @ S '' '' @ decimal (length (utf8_encode c)) @ [0]"
  have "\<not> is_high_surrogate (last ?header)"
    by (simp add: is_high_surrogate_def)
  then have "utf8_encode (?header @ c) = utf8_encode ?header @ utf8_encode c"
    by (intro utf8_encode_append) simp
  then have "hashObject k c = hex_encode (sha256 (utf8_encode (?header @ c)))"
    by (simp add: hashObject_def Let_def createHash_def Hash_update_def
        Hash_update_string_def sha256_digest_hex_def)
  moreover have "length (hashObject k c) = 64"
    by (simp add: hashObject_def Let_def sha256_digest_hex_def)
  moreover have "list_all is_lower_hex (hashObject k c)"
    by (simp add: hashObject_def Let_def sha256_digest_hex_def hex_encode_lower)
  ultimately show ?thesis
    by simp
qed

section \<open>Properties of the string operations\<close>

lemma startsWith_append [simp]: "startsWith (p @ s) p"
  by (simp add: startsWith_def)

lemma slice_from_nonneg: "0 \<le> b \<Longrightarrow> slice_from s b = drop (nat b) s"
  by (simp add: slice_from_def slice_index_def min_def)

lemma slice_from_numeral [simp]: "slice_from s (numeral n) = drop (numeral n) s"
  by (simp add: slice_from_nonneg)

lemma slice_from_zero [simp]: "slice_from s 0 = s"
  by (simp add: slice_from_nonneg)

lemma slice_from_of_nat [simp]: "slice_from s (int n) = drop n s"
  by (simp add: slice_from_nonneg)

lemma slice_zero_nonneg: "0 \<le> e \<Longrightarrow> slice s 0 e = take (nat e) s"
  by (simp add: slice_def slice_index_def Let_def min_def)

lemma slice_nonneg:
  "0 \<le> b \<Longrightarrow> 0 \<le> e \<Longrightarrow> slice s b e = take (nat e - nat b) (drop (nat b) s)"
proof -
  assume b: "0 \<le> b" and e: "0 \<le> e"
  have "take (min (nat e) (length s) - min (nat b) (length s)) (drop (min (nat b) (length s)) s)
        = take (nat e - nat b) (drop (nat b) s)"
    by (cases "nat b \<le> length s"; cases "nat e \<le> length s") (auto simp: min_def)
  with b e show ?thesis
    by (simp add: slice_def slice_index_def Let_def)
qed

lemma split_not_Nil [simp]: "split s c \<noteq> []"
  by (induction s) (auto split: list.splits)

lemma split_no_separator: "c \<notin> set s \<Longrightarrow> split s c = [s]"
  by (induction s) auto

lemma split_append_separator: "c \<notin> set a \<Longrightarrow> split (a @ c # b) c = a # split b c"
  by (induction a) auto

lemma join_Cons: "ls \<noteq> [] \<Longrightarrow> join (l # ls) sep = l @ sep @ join ls sep"
  by (cases ls) auto

lemma join_split [simp]: "join (split s c) [c] = s"
proof (induction s)
  case Nil
  then show ?case by simp
next
  case (Cons x xs)
  obtain l ls where ls: "split xs c = l # ls"
    by (cases "split xs c") auto
  show ?case
  proof (cases "x = c")
    case True
    then show ?thesis
      using Cons by (simp add: join_Cons)
  next
    case False
    have "join ((x # l) # ls) [c] = x # join (l # ls) [c]"
      by (cases ls) auto
    with False ls Cons show ?thesis
      by simp
  qed
qed

lemma lastIndexOf_from_absent: "c \<notin> set xs \<Longrightarrow> lastIndexOf_from i found xs c = found"
  by (induction xs arbitrary: i found) auto

lemma lastIndexOf_from_last:
  "c \<notin> set b \<Longrightarrow> lastIndexOf_from i found (a @ c # b) c = int (i + length a)"
  by (induction a arbitrary: i found) (auto simp: lastIndexOf_from_absent)

lemma lastIndexOf_last: "c \<notin> set b \<Longrightarrow> lastIndexOf (a @ c # b) c = int (length a)"
  by (simp add: lastIndexOf_def lastIndexOf_from_last)

lemma lastIndexOf_absent: "c \<notin> set s \<Longrightarrow> lastIndexOf s c = - 1"
  by (simp add: lastIndexOf_def lastIndexOf_from_absent)

subsection \<open>Decimal digits\<close>

lemma digit_unat: "d < 10 \<Longrightarrow> unat (of_nat (48 + d) :: 16 word) = 48 + d"
  by (simp add: unat_of_nat del: of_nat_add)

lemma digit_is_digit: "d < 10 \<Longrightarrow> is_digit (of_nat (48 + d))"
proof -
  assume d: "d < 10"
  have "(0x30 :: 16 word) \<le> of_nat (48 + d) \<longleftrightarrow> 48 \<le> 48 + d"
    using d by (simp add: word_le_nat_alt digit_unat del: of_nat_add)
  moreover have "(of_nat (48 + d) :: 16 word) \<le> 0x39 \<longleftrightarrow> 48 + d \<le> 57"
    using d by (simp add: word_le_nat_alt digit_unat del: of_nat_add)
  ultimately show ?thesis
    using d by (simp add: is_digit_def del: of_nat_add)
qed

lemma decimal_not_Nil [simp]: "decimal n \<noteq> []"
  by (subst decimal.simps) simp

lemma decimal_digits: "list_all is_digit (decimal n)"
proof (induction n rule: decimal.induct)
  case (1 n)
  show ?case
  proof (cases "n < 10")
    case True
    then show ?thesis
      by (subst decimal.simps) (simp add: digit_is_digit del: of_nat_add)
  next
    case False
    with 1 show ?thesis
      by (subst decimal.simps) (simp add: digit_is_digit del: of_nat_add)
  qed
qed

lemma digits_value_snoc:
  "digits_value (ds @ [d]) = 10 * digits_value ds + (unat d - 48)"
  by (simp add: digits_value_def)

lemma digits_value_decimal [simp]: "digits_value (decimal n) = n"
proof (induction n rule: decimal.induct)
  case (1 n)
  show ?case
  proof (cases "n < 10")
    case True
    then show ?thesis
      by (subst decimal.simps) (simp add: digits_value_def digit_unat del: of_nat_add)
  next
    case False
    with 1 show ?thesis
      by (subst decimal.simps) (simp add: digits_value_snoc digit_unat del: of_nat_add)
  qed
qed

lemma is_digit_not_space: "is_digit u \<Longrightarrow> \<not> is_white_space u"
  by (auto simp: is_digit_def is_white_space_def word_le_nat_alt)

lemma is_digit_not_sign: "is_digit u \<Longrightarrow> u \<noteq> 0x2B \<and> u \<noteq> 0x2D \<and> u \<noteq> 0x20 \<and> u \<noteq> LF"
  by (auto simp: is_digit_def)

lemma decimal_hd: "is_digit (hd (decimal n))"
  using decimal_digits [of n] decimal_not_Nil [of n]
  by (cases "decimal n") auto

lemma takeWhile_all: "list_all P xs \<Longrightarrow> takeWhile P xs = xs"
  by (induction xs) auto

lemma parseInt_digits:
  assumes "list_all is_digit s" and "s \<noteq> []"
  shows "parseInt s = Num (int (digits_value s))"
proof -
  obtain d ds where s: "s = d # ds"
    using assms(2) by (cases s) auto
  have d: "is_digit d"
    using assms(1) s by simp
  have t: "dropWhile is_white_space s = s"
    using is_digit_not_space [OF d] s by simp
  have sign: "hd s \<noteq> 0x2B \<and> hd s \<noteq> 0x2D"
    using is_digit_not_sign [OF d] s by simp
  have z: "takeWhile is_digit s = s"
    using assms(1) by (rule takeWhile_all)
  show ?thesis
    unfolding parseInt_def Let_def t using sign assms(2) by (simp add: z)
qed

lemma parseInt_decimal: "parseInt (decimal n) = Num (int n)"
  using parseInt_digits [OF decimal_digits decimal_not_Nil, of n] by simp

lemma parseInt_minus_decimal: "parseInt (0x2D # decimal n) = Num (- int n)"
proof -
  have z: "takeWhile is_digit (decimal n) = decimal n"
    using decimal_digits [of n] by (rule takeWhile_all)
  have t: "dropWhile is_white_space (0x2D # decimal n) = 0x2D # decimal n"
    by (simp add: is_white_space_def)
  show ?thesis
    unfolding parseInt_def Let_def t by (simp add: z)
qed

lemma parseInt_number_to_string [simp]: "parseInt (number_to_string (Num t)) = Num t"
  by (cases "t < 0") (simp_all add: parseInt_decimal parseInt_minus_decimal)

lemma decimal_no_space: "0x20 \<notin> set (decimal n) \<and> LF \<notin> set (decimal n)"
proof -
  have "\<forall>u \<in> set (decimal n). is_digit u"
    using decimal_digits [of n] by (simp add: list_all_iff)
  then show ?thesis
    using is_digit_not_sign by blast
qed

lemma number_to_string_no_space:
  "0x20 \<notin> set (number_to_string (Num t)) \<and> LF \<notin> set (number_to_string (Num t))"
  using decimal_no_space by simp

section \<open>The text form of a commit\<close>

lemma author_part:
  fixes a :: jsstring and t :: int
  shows "lastIndexOf (a @ 0x20 # number_to_string (Num t)) 0x20 = int (length a)"
    and "slice (a @ 0x20 # number_to_string (Num t)) 0 (int (length a)) = a"
    and "slice_from (a @ 0x20 # number_to_string (Num t)) (int (length a) + 1)
         = number_to_string (Num t)"
proof -
  show "lastIndexOf (a @ 0x20 # number_to_string (Num t)) 0x20 = int (length a)"
    using number_to_string_no_space [of t] by (intro lastIndexOf_last) simp
  show "slice (a @ 0x20 # number_to_string (Num t)) 0 (int (length a)) = a"
    by (simp add: slice_zero_nonneg del: number_to_string.simps)
  have "slice_from (a @ 0x20 # number_to_string (Num t)) (int (length a) + 1)
        = drop (Suc (length a)) (a @ 0x20 # number_to_string (Num t))"
    by (simp add: slice_from_nonneg nat_add_distrib)
  then show "slice_from (a @ 0x20 # number_to_string (Num t)) (int (length a) + 1)
             = number_to_string (Num t)"
    by (simp del: number_to_string.simps)
qed

lemma parse_card_line:
  "parse_lines i ((S ''card '' @ c) # rest) st =
   parse_lines (Suc i) rest (st\<lparr>ps_card := c\<rparr>)"
  by (simp add: startsWith_def)

lemma parse_parent_line:
  "parse_lines i ((S ''parent '' @ p) # rest) st =
   parse_lines (Suc i) rest (st\<lparr>ps_parent := Some p\<rparr>)"
  by (simp add: startsWith_def)

lemma parse_author_line:
  "parse_lines i ((S ''author '' @ a @ S '' '' @ number_to_string (Num t)) # rest) st =
   parse_lines (Suc i) rest (st\<lparr>ps_author := a, ps_timestamp := Num t\<rparr>)"
  by (simp add: startsWith_def Let_def author_part del: number_to_string.simps)

lemma parse_blank_line:
  "parse_lines i ([] # rest) st = st\<lparr>ps_messageStart := int i + 1\<rparr>"
  by simp

lemma parseCommit_serializeCommit_fields:
  assumes c: "c \<noteq> []" "LF \<notin> set c"
    and p: "case p of None \<Rightarrow> True | Some h \<Rightarrow> LF \<notin> set h"
    and a: "LF \<notin> set a"
  shows "parseCommit h
           (serializeCommit \<lparr>cf_card = c, cf_parent = p, cf_author = a,
                             cf_timestamp = Num t, cf_message = m\<rparr>)
         = Inr \<lparr>hash = h, card' = c, parent = p, author = a, timestamp = Num t,
                message = m\<rparr>"
proof -
  define l1 where "l1 = S ''card '' @ c"
  define l3 where "l3 = S ''author '' @ a @ S '' '' @ number_to_string (Num t)"
  have l1: "LF \<notin> set l1"
    using c(2) by (simp add: l1_def)
  have l3: "LF \<notin> set l3"
    using a number_to_string_no_space [of t]
    by (simp add: l3_def del: number_to_string.simps)
  show ?thesis
  proof (cases p)
    case None
    have raw: "serializeCommit \<lparr>cf_card = c, cf_parent = p, cf_author = a,
                 cf_timestamp = Num t, cf_message = m\<rparr>
               = l1 @ LF # l3 @ LF # LF # m"
      by (simp add: serializeCommit_def None l1_def l3_def del: number_to_string.simps)
    have lines: "split (l1 @ LF # l3 @ LF # LF # m) LF = l1 # l3 # [] # split m LF"
      using l1 l3 by (simp add: split_append_separator)
    have "parse_lines 0 (l1 # l3 # [] # split m LF)
            \<lparr>ps_card = [], ps_parent = None, ps_author = [], ps_timestamp = Num 0,
             ps_messageStart = - 1\<rparr>
          = \<lparr>ps_card = c, ps_parent = None, ps_author = a, ps_timestamp = Num t,
             ps_messageStart = 3\<rparr>"
      unfolding l1_def l3_def parse_card_line parse_author_line parse_blank_line
      by simp
    then show ?thesis
      unfolding parseCommit_def raw lines Let_def
      using c(1) None by (simp del: parse_lines.simps)
  next
    case (Some ph)
    define l2 where "l2 = S ''parent '' @ ph"
    have l2: "LF \<notin> set l2"
      using p Some by (simp add: l2_def)
    have raw: "serializeCommit \<lparr>cf_card = c, cf_parent = p, cf_author = a,
                 cf_timestamp = Num t, cf_message = m\<rparr>
               = l1 @ LF # l2 @ LF # l3 @ LF # LF # m"
      by (simp add: serializeCommit_def Some l1_def l2_def l3_def
          del: number_to_string.simps)
    have lines: "split (l1 @ LF # l2 @ LF # l3 @ LF # LF # m) LF
                 = l1 # l2 # l3 # [] # split m LF"
      using l1 l2 l3 by (simp add: split_append_separator)
    have "parse_lines 0 (l1 # l2 # l3 # [] # split m LF)
            \<lparr>ps_card = [], ps_parent = None, ps_author = [], ps_timestamp = Num 0,
             ps_messageStart = - 1\<rparr>
          = \<lparr>ps_card = c, ps_parent = Some ph, ps_author = a, ps_timestamp = Num t,
             ps_messageStart = 4\<rparr>"
      unfolding l1_def l2_def l3_def parse_card_line parse_parent_line parse_author_line
        parse_blank_line
      by simp
    then show ?thesis
      unfolding parseCommit_def raw lines Let_def
      using c(1) Some by (simp del: parse_lines.simps)
  qed
qed

section \<open>Commits as text and back\<close>

text \<open>
  C9, as the code has it. A commit record whose card hash is not empty, whose card
  hash, parent hash and author contain no line feed, and whose timestamp is an integer
  of magnitude below \<open>2^53\<close>, is read back by \<open>parseCommit\<close> from its serialized text
  with the same card, parent, author, timestamp and message. The message may contain
  anything.
\<close>

theorem parseCommit_serializeCommit:
  assumes "cf_card x \<noteq> []" and "LF \<notin> set (cf_card x)"
    and "case cf_parent x of None \<Rightarrow> True | Some p \<Rightarrow> LF \<notin> set p"
    and "LF \<notin> set (cf_author x)"
    and "cf_timestamp x = Num t" and "\<bar>t\<bar> < 2 ^ 53"
  shows "parseCommit h (serializeCommit x)
         = Inr \<lparr>hash = h, card' = cf_card x, parent = cf_parent x, author = cf_author x,
                timestamp = cf_timestamp x, message = cf_message x\<rparr>"
proof -
  have "x = \<lparr>cf_card = cf_card x, cf_parent = cf_parent x, cf_author = cf_author x,
             cf_timestamp = Num t, cf_message = cf_message x\<rparr>"
    using assms(5) by simp
  then have "parseCommit h (serializeCommit x)
             = Inr \<lparr>hash = h, card' = cf_card x, parent = cf_parent x, author = cf_author x,
                    timestamp = Num t, message = cf_message x\<rparr>"
    using parseCommit_serializeCommit_fields
      [OF assms(1-4), of h t "cf_message x"]
    by simp
  then show ?thesis
    using assms(5) by simp
qed

theorem parseCommit_serializeCommit_witness:
  "parseCommit (S ''3a7bd3e2360a3d29eea436fcfb7e44c735d117c42d1c1835420b6b9942dd4f1b'')
     (serializeCommit
        \<lparr>cf_card = S ''2c26b46b68ffc68ff99b453c1d30413413422d706483bfa0f98a5e886266e7ae'',
         cf_parent = Some (S ''fcde2b2edba56bf408601fb721fe9b5c338d10ee429ea04fae5511b68fbf8fb9''),
         cf_author = S ''my agent'', cf_timestamp = Num 1772064000,
         cf_message = S ''FAAM config''\<rparr>)
   = Inr \<lparr>hash = S ''3a7bd3e2360a3d29eea436fcfb7e44c735d117c42d1c1835420b6b9942dd4f1b'',
          card' = S ''2c26b46b68ffc68ff99b453c1d30413413422d706483bfa0f98a5e886266e7ae'',
          parent = Some (S ''fcde2b2edba56bf408601fb721fe9b5c338d10ee429ea04fae5511b68fbf8fb9''),
          author = S ''my agent'', timestamp = Num 1772064000,
          message = S ''FAAM config''\<rparr>"
  using parseCommit_serializeCommit
    [of "\<lparr>cf_card = S ''2c26b46b68ffc68ff99b453c1d30413413422d706483bfa0f98a5e886266e7ae'',
          cf_parent = Some (S ''fcde2b2edba56bf408601fb721fe9b5c338d10ee429ea04fae5511b68fbf8fb9''),
          cf_author = S ''my agent'', cf_timestamp = Num 1772064000,
          cf_message = S ''FAAM config''\<rparr>"
        1772064000
        "S ''3a7bd3e2360a3d29eea436fcfb7e44c735d117c42d1c1835420b6b9942dd4f1b''"]
  by simp

text \<open>
  The claim as stated, for every author, fails: an author of two lines, \<open>a\<close> and \<open>b\<close>,
  is read back as the empty author with the timestamp \<^verbatim>\<open>NaN\<close>.
\<close>

theorem parseCommit_serializeCommit_counterexample:
  "parseCommit (S ''3a7bd3e2360a3d29eea436fcfb7e44c735d117c42d1c1835420b6b9942dd4f1b'')
     (serializeCommit
        \<lparr>cf_card = S ''2c26b46b68ffc68ff99b453c1d30413413422d706483bfa0f98a5e886266e7ae'',
         cf_parent = None, cf_author = S ''a'' @ [LF] @ S ''b'', cf_timestamp = Num 1772064000,
         cf_message = S ''FAAM config''\<rparr>)
   = Inr \<lparr>hash = S ''3a7bd3e2360a3d29eea436fcfb7e44c735d117c42d1c1835420b6b9942dd4f1b'',
          card' = S ''2c26b46b68ffc68ff99b453c1d30413413422d706483bfa0f98a5e886266e7ae'',
          parent = None, author = [], timestamp = NaN, message = S ''FAAM config''\<rparr>
   \<and> author \<lparr>hash = S ''3a7bd3e2360a3d29eea436fcfb7e44c735d117c42d1c1835420b6b9942dd4f1b'',
          card' = S ''2c26b46b68ffc68ff99b453c1d30413413422d706483bfa0f98a5e886266e7ae'',
          parent = None, author = [], timestamp = NaN, message = S ''FAAM config''\<rparr>
     \<noteq> S ''a'' @ [LF] @ S ''b''"
  by (simp add: parseCommit_def serializeCommit_def startsWith_def Let_def lastIndexOf_def
      slice_def slice_index_def parseInt_def is_white_space_def is_digit_def decimal.simps)

section \<open>ASCII text on disk\<close>

lemma ascii_unat: "is_ascii u \<longleftrightarrow> unat u < 128"
  by (simp add: is_ascii_def word_less_nat_alt)

lemma ascii_not_surrogate: "is_ascii u \<Longrightarrow> \<not> is_high_surrogate u \<and> \<not> is_low_surrogate u"
  by (auto simp: is_ascii_def is_high_surrogate_def is_low_surrogate_def word_le_nat_alt word_less_nat_alt)

lemma take_bit_small: "(m :: nat) < 128 \<Longrightarrow> 7 \<le> n \<Longrightarrow> take_bit n m = m"
proof -
  assume m: "m < 128" and n: "7 \<le> n"
  have "(2 :: nat) ^ 7 \<le> 2 ^ n"
    using n by (intro power_increasing) simp_all
  then have "m < 2 ^ n"
    using m by simp
  then show ?thesis
    by (simp add: take_bit_nat_eq_self)
qed

lemma ascii_up: "is_ascii u \<Longrightarrow> (ucast u :: 32 word) < 0x80"
  by (simp add: ascii_unat word_less_nat_alt unsigned_ucast_eq take_bit_small)

lemma ascii_down_up: "is_ascii u \<Longrightarrow> (ucast (ucast u :: 8 word) :: 16 word) = u"
  by (simp add: ascii_unat word_unat_eq_iff unsigned_ucast_eq unsigned_take_bit_eq
      take_bit_small)

lemma ascii_down_le: "is_ascii u \<Longrightarrow> (ucast u :: 8 word) \<le> 0x7F"
  by (simp add: ascii_unat word_le_nat_alt unsigned_ucast_eq take_bit_small)

lemma ascii_up_down: "(ucast (ucast u :: 32 word) :: 8 word) = (ucast (u :: 16 word))"
  by (simp add: word_unat_eq_iff unsigned_ucast_eq unsigned_take_bit_eq)

lemma utf8_code_point_ascii: "is_ascii u \<Longrightarrow> utf8_code_point (ucast u) = [ucast u]"
  using ascii_up [of u] by (simp add: utf8_code_point_def ascii_up_down)

lemma utf8_encode_ascii: "list_all is_ascii s \<Longrightarrow> utf8_encode s = map ucast s"
  by (induction s rule: utf8_encode.induct)
    (simp_all add: utf8_code_point_ascii ascii_not_surrogate)

lemma utf8_decode_from_ascii:
  "list_all is_ascii s \<Longrightarrow> utf8_decode_from 0 0 0x80 0xBF (map ucast s) = s"
  by (induction s) (simp_all add: ascii_down_le ascii_down_up)

lemma utf8_decode_encode_ascii: "list_all is_ascii s \<Longrightarrow> utf8_decode (utf8_encode s) = s"
  by (simp add: utf8_decode_def utf8_encode_ascii utf8_decode_from_ascii)

section \<open>Walking the history\<close>

lemma log_loop_missing:
  "h \<noteq> [] \<Longrightarrow> length commits < limit \<Longrightarrow> readObject w h = Inl err \<Longrightarrow>
   log_loop w limit (Some h) commits = Inl err"
  by (subst log_loop.simps) simp

lemma log_loop_step:
  "h \<noteq> [] \<Longrightarrow> length commits < limit \<Longrightarrow> readObject w h = Inr raw \<Longrightarrow>
   parseCommit h raw = Inr c \<Longrightarrow>
   log_loop w limit (Some h) commits = log_loop w limit (parent c) (commits @ [c])"
  by (subst log_loop.simps) simp

lemma readObject_missing: "\<not> objectExists w h \<Longrightarrow> readObject w h = Inl (ObjectNotFound h)"
  by (simp add: readObject_def readFile_def objectExists_def)

lemma log_broken_chain:
  assumes found: "nit_dir w"
    and branch: "getCurrentBranch w = Inr b" "getBranch w b = Some h" "h \<noteq> []"
    and tip: "readObject w h = Inr raw" "parseCommit h raw = Inr c"
    and parent: "parent c = Some p" "p \<noteq> []" "\<not> objectExists w p"
    and limit: "2 \<le> (case n of Some k \<Rightarrow> k | None \<Rightarrow> 50)"
  shows "log w n = Inl (ObjectNotFound p)"
proof -
  let ?limit = "case n of Some k \<Rightarrow> k | None \<Rightarrow> 50"
  have "log_loop w ?limit (Some h) [] = log_loop w ?limit (Some p) [c]"
    using log_loop_step [OF branch(3) _ tip, of "[]" ?limit] limit parent(1) by simp
  also have "\<dots> = Inl (ObjectNotFound p)"
    using limit by (intro log_loop_missing parent(2) readObject_missing parent(3)) simp
  finally show ?thesis
    using found branch(1,2) by (simp add: log_def findNitDir_def and_then_def)
qed

text \<open>
  C7 does not hold of \<open>log\<close>. In the repository below, \<^verbatim>\<open>main\<close> points at a commit
  whose parent is not in the store. \<open>log\<close> with the default limit of 50 reads the tip,
  follows its parent and fails with \<^verbatim>\<open>Object not found\<close>: the commit it has read is
  not returned. The loops of \<^verbatim>\<open>status\<close> that count the commits ahead walk the same
  chain inside \<^verbatim>\<open>try { ... } catch { break; }\<close>.
\<close>

theorem log_broken_chain_fails:
  "log
     \<lparr>nit_dir = True, card_file = None,
      nit_files =
        [S ''HEAD'' \<mapsto> utf8_encode (S ''ref: refs/heads/main'' @ [LF]),
         S ''refs/heads/main'' \<mapsto>
           utf8_encode
             (S ''3a7bd3e2360a3d29eea436fcfb7e44c735d117c42d1c1835420b6b9942dd4f1b'' @ [LF]),
         S ''objects/3a/7bd3e2360a3d29eea436fcfb7e44c735d117c42d1c1835420b6b9942dd4f1b'' \<mapsto>
           utf8_encode
             (S ''card 2c26b46b68ffc68ff99b453c1d30413413422d706483bfa0f98a5e886266e7ae''
              @ [LF]
              @ S ''parent fcde2b2edba56bf408601fb721fe9b5c338d10ee429ea04fae5511b68fbf8fb9''
              @ [LF] @ S ''author my agent 1772064000'' @ [LF, LF] @ S ''FAAM config'')],
      refused = (\<lambda>t. False), journal = []\<rparr>
     None
   = Inl (ObjectNotFound
            (S ''fcde2b2edba56bf408601fb721fe9b5c338d10ee429ea04fae5511b68fbf8fb9''))"
proof -
  define head where "head = S ''ref: refs/heads/main'' @ [LF]"
  define tip where
    "tip = S ''3a7bd3e2360a3d29eea436fcfb7e44c735d117c42d1c1835420b6b9942dd4f1b''"
  define p where
    "p = S ''fcde2b2edba56bf408601fb721fe9b5c338d10ee429ea04fae5511b68fbf8fb9''"
  define raw where
    "raw = S ''card 2c26b46b68ffc68ff99b453c1d30413413422d706483bfa0f98a5e886266e7ae''
           @ [LF]
           @ S ''parent fcde2b2edba56bf408601fb721fe9b5c338d10ee429ea04fae5511b68fbf8fb9''
           @ [LF] @ S ''author my agent 1772064000'' @ [LF, LF] @ S ''FAAM config''"
  define w where
    "w = \<lparr>nit_dir = True, card_file = None,
          nit_files =
            [S ''HEAD'' \<mapsto> utf8_encode head,
             S ''refs/heads/main'' \<mapsto> utf8_encode (tip @ [LF]),
             S ''objects/3a/7bd3e2360a3d29eea436fcfb7e44c735d117c42d1c1835420b6b9942dd4f1b''
               \<mapsto> utf8_encode raw],
          refused = (\<lambda>t. False), journal = []\<rparr>"
  have ascii: "list_all is_ascii head" "list_all is_ascii (tip @ [LF])" "list_all is_ascii raw"
    by (simp_all add: head_def tip_def raw_def is_ascii_def)
  have "readFile w (S ''HEAD'') = Some (utf8_decode (utf8_encode head))"
    by (simp add: w_def readFile_def)
  then have head: "readFile w (S ''HEAD'') = Some head"
    by (simp only: utf8_decode_encode_ascii [OF ascii(1)])
  have trim_head: "trim head = S ''ref: refs/heads/main''"
    by (simp add: head_def trim_def is_white_space_def)
  have branch: "getCurrentBranch w = Inr (S ''main'')"
    unfolding getCurrentBranch_def getHead_def head
    by (simp add: trim_head and_then_def startsWith_def)
  have "readFile w (S ''refs/heads/'' @ S ''main'') = Some (utf8_decode (utf8_encode (tip @ [LF])))"
    by (simp add: w_def readFile_def)
  then have ref: "readFile w (S ''refs/heads/'' @ S ''main'') = Some (tip @ [LF])"
    by (simp only: utf8_decode_encode_ascii [OF ascii(2)])
  have trim_tip: "trim (tip @ [LF]) = tip"
    by (simp add: tip_def trim_def is_white_space_def)
  have tip_ref: "getBranch w (S ''main'') = Some tip"
    unfolding getBranch_def ref by (simp add: trim_tip)
  have tip_file: "objectFile tip
      = S ''objects/3a/7bd3e2360a3d29eea436fcfb7e44c735d117c42d1c1835420b6b9942dd4f1b''"
    by (simp add: objectFile_def tip_def slice_nonneg)
  have "readFile w (objectFile tip) = Some (utf8_decode (utf8_encode raw))"
    unfolding tip_file by (simp add: w_def readFile_def)
  then have read: "readObject w tip = Inr raw"
    by (simp add: readObject_def utf8_decode_encode_ascii [OF ascii(3)])
  have raw_text: "raw = serializeCommit
      \<lparr>cf_card = S ''2c26b46b68ffc68ff99b453c1d30413413422d706483bfa0f98a5e886266e7ae'',
       cf_parent = Some p, cf_author = S ''my agent'', cf_timestamp = Num 1772064000,
       cf_message = S ''FAAM config''\<rparr>"
    by (simp add: raw_def p_def serializeCommit_def decimal.simps)
  have parsed: "parseCommit tip raw
      = Inr \<lparr>hash = tip,
             card' = S ''2c26b46b68ffc68ff99b453c1d30413413422d706483bfa0f98a5e886266e7ae'',
             parent = Some p, author = S ''my agent'', timestamp = Num 1772064000,
             message = S ''FAAM config''\<rparr>"
    unfolding raw_text by (rule parseCommit_serializeCommit_fields) (simp_all add: p_def)
  have "objectFile p
      = S ''objects/fc/de2b2edba56bf408601fb721fe9b5c338d10ee429ea04fae5511b68fbf8fb9''"
    by (simp add: objectFile_def p_def slice_nonneg)
  then have missing: "\<not> objectExists w p"
    by (simp add: objectExists_def w_def)
  have "log w None = Inl (ObjectNotFound p)"
    by (rule log_broken_chain [OF _ branch tip_ref _ read parsed _ _ missing])
      (simp_all add: w_def tip_def p_def)
  then show ?thesis
    unfolding w_def head_def tip_def p_def raw_def .
qed

section \<open>The diff engine\<close>

lemma and_then_Inr:
  "and_then r f = Inr y \<longleftrightarrow> (\<exists>x. r = Inr x \<and> f x = Inr y)"
  by (cases r) (simp_all add: and_then_def)

lemma and_then_Inr_simp [simp]: "and_then (Inr x) f = f x"
  by (simp add: and_then_def)

lemma and_then_Inl_simp [simp]: "and_then (Inl e) f = Inl e"
  by (simp add: and_then_def)

lemma diff_scalars_fields:
  "diff_scalars oldCard newCard fs = Inr ds \<Longrightarrow> field ` set ds \<subseteq> set fs"
proof (induction fs arbitrary: ds)
  case Nil
  then show ?case by simp
next
  case (Cons f fs)
  from Cons.prems obtain oldVal newVal rest where
    rest: "diff_scalars oldCard newCard fs = Inr rest"
    and ds: "ds = (if \<not> strict_equal oldVal newVal
                   then \<lparr>field = f, old = oldVal, new = newVal\<rparr> # rest else rest)"
    by (auto simp: and_then_Inr)
  from Cons.IH [OF rest] ds show ?case
    by (auto split: if_splits)
qed

lemma diff_arrays_fields:
  "diff_arrays oldCard newCard fs = Inr ds \<Longrightarrow> field ` set ds \<subseteq> set fs"
proof (induction fs arbitrary: ds)
  case Nil
  then show ?case by simp
next
  case (Cons f fs)
  from Cons.prems obtain oldVal newVal rest where
    rest: "diff_arrays oldCard newCard fs = Inr rest"
    and ds: "ds = (if map_option JSON_stringify oldVal \<noteq> map_option JSON_stringify newVal
                   then \<lparr>field = f, old = oldVal, new = newVal\<rparr> # rest else rest)"
    by (auto simp: and_then_Inr Let_def)
  from Cons.IH [OF rest] ds show ?case
    by (auto split: if_splits)
qed

lemma filter_none: "(\<And>x. x \<in> set xs \<Longrightarrow> \<not> P x) \<Longrightarrow> filter P xs = []"
  by (induction xs) auto

lemma provider_not_scalar: "S ''provider'' \<notin> set scalarFields"
  by (simp add: scalarFields_def)

lemma provider_not_array: "S ''provider'' \<notin> set arrayFields"
  by (simp add: arrayFields_def)

lemma diffCards_provider_entries:
  assumes d: "diffCards oldCard newCard = Inr d"
    and oldP: "property oldCard (S ''provider'') = Inr oldP"
    and newP: "property newCard (S ''provider'') = Inr newP"
  shows "filter (\<lambda>f. field f = S ''provider'') (fields' d)
         = (if JSON_stringify (or_null oldP) = JSON_stringify (or_null newP) then []
            else [\<lparr>field = S ''provider'', old = oldP, new = newP\<rparr>])"
proof -
  from d obtain scalars provider arrays where
    scalars: "diff_scalars oldCard newCard scalarFields = Inr scalars"
    and provider: "diff_provider oldCard newCard = Inr provider"
    and arrays: "diff_arrays oldCard newCard arrayFields = Inr arrays"
    and fields: "fields' d = scalars @ provider @ arrays"
    unfolding diffCards_def by (auto simp: and_then_Inr Let_def)
  have "filter (\<lambda>f. field f = S ''provider'') scalars = []"
    using diff_scalars_fields [OF scalars] provider_not_scalar
    by (intro filter_none) auto
  moreover have "filter (\<lambda>f. field f = S ''provider'') arrays = []"
    using diff_arrays_fields [OF arrays] provider_not_array
    by (intro filter_none) auto
  moreover have "provider
      = (if JSON_stringify (or_null oldP) = JSON_stringify (or_null newP) then []
         else [\<lparr>field = S ''provider'', old = oldP, new = newP\<rparr>])"
    using provider oldP newP by (auto simp: diff_provider_def Let_def)
  ultimately show ?thesis
    using fields by simp
qed

text \<open>
  C8, as the code has it. When \<open>diffCards\<close> returns a result, it has one change entry
  for the field \<^verbatim>\<open>provider\<close>, holding the two providers, when the texts
  \<^verbatim>\<open>JSON.stringify(provider ?? null)\<close> of the two cards differ, and none when they are
  equal. The text lists the keys of an object in their order, so the order counts.
\<close>

theorem diffCards_provider:
  assumes "diffCards oldCard newCard = Inr d"
    and "property oldCard (S ''provider'') = Inr oldP"
    and "property newCard (S ''provider'') = Inr newP"
  shows "filter (\<lambda>f. field f = S ''provider'') (fields' d)
         = (if JSON_stringify (or_null oldP) = JSON_stringify (or_null newP) then []
            else [\<lparr>field = S ''provider'', old = oldP, new = newP\<rparr>])"
  using assms by (rule diffCards_provider_entries)

section \<open>The derived identifier\<close>

lemma version_bits: "drop_bit 4 ((b AND 0x0F) OR 0x50 :: 8 word) = 5"
  by (rule bit_word_eqI) (auto simp: bit_simps)

lemma variant_bits: "drop_bit 6 ((b AND 0x3F) OR 0x80 :: 8 word) = 2"
  by (rule bit_word_eqI) (auto simp: bit_simps)

lemma version_digit: "hex_digit (unat ((b AND 0x0F) OR 0x50 :: 8 word) div 16) = 0x35"
proof -
  have "unat ((b AND 0x0F) OR 0x50 :: 8 word) div 16
        = unat (drop_bit 4 ((b AND 0x0F) OR 0x50 :: 8 word))"
    by (simp add: drop_bit_eq_div unat_div)
  then show ?thesis
    by (simp add: version_bits hex_digit_def)
qed

lemma variant_digit:
  "hex_digit (unat ((b AND 0x3F) OR 0x80 :: 8 word) div 16) \<in> {0x38, 0x39, 0x61, 0x62}"
proof -
  let ?n = "unat ((b AND 0x3F) OR 0x80 :: 8 word)"
  have "?n div 64 = unat (drop_bit 6 ((b AND 0x3F) OR 0x80 :: 8 word))"
    by (simp add: drop_bit_eq_div unat_div)
  then have "?n div 64 = 2"
    by (simp add: variant_bits)
  then have "?n div 16 \<in> {8, 9, 10, 11}"
    by auto
  then show ?thesis
    by (auto simp: hex_digit_def)
qed

lemma NIT_NAMESPACE_bytes:
  "parseUuid NIT_NAMESPACE
   = [0x80, 0x1B, 0xA5, 0x18, 0xF3, 0x26, 0x47, 0xE5, 0x97, 0xC9, 0xD1, 0xEF, 0xD1, 0x86,
      0x5A, 0x19]"
  by (simp add: parseUuid_def NIT_NAMESPACE_def hex_value_def)

lemma list_of_length_20:
  assumes "length (xs :: 'a list) = 20"
  obtains x0 x1 x2 x3 x4 x5 x6 x7 x8 x9 x10 x11 x12 x13 x14 x15 x16 x17 x18 x19
  where "xs = [x0, x1, x2, x3, x4, x5, x6, x7, x8, x9, x10, x11, x12, x13, x14, x15, x16,
               x17, x18, x19]"
  using assms by (auto simp: numeral_eq_Suc length_Suc_conv)

lemma formatUuid_16:
  "formatUuid [b0, b1, b2, b3, b4, b5, b6, b7, b8, b9, b10, b11, b12, b13, b14, b15]
   = hex_byte b0 @ hex_byte b1 @ hex_byte b2 @ hex_byte b3 @ [0x2D]
     @ hex_byte b4 @ hex_byte b5 @ [0x2D]
     @ hex_byte b6 @ hex_byte b7 @ [0x2D]
     @ hex_byte b8 @ hex_byte b9 @ [0x2D]
     @ hex_byte b10 @ hex_byte b11 @ hex_byte b12 @ hex_byte b13 @ hex_byte b14
     @ hex_byte b15"
  by (simp add: formatUuid_def hex_encode_def hex_byte_def slice_nonneg)

lemma uuid_shape:
  fixes h :: "byte list"
  assumes "length h = 20"
  defines "uuid \<equiv> formatUuid ((take 16 h)[6 := (take 16 h ! 6 AND 0x0F) OR 0x50,
                                             8 := (take 16 h ! 8 AND 0x3F) OR 0x80])"
  shows "length uuid = 36"
    and "uuid ! 8 = 0x2D \<and> uuid ! 13 = 0x2D \<and> uuid ! 18 = 0x2D \<and> uuid ! 23 = 0x2D"
    and "uuid ! 14 = 0x35"
    and "uuid ! 19 \<in> {0x38, 0x39, 0x61, 0x62}"
proof -
  obtain x0 x1 x2 x3 x4 x5 x6 x7 x8 x9 x10 x11 x12 x13 x14 x15 x16 x17 x18 x19
    where h: "h = [x0, x1, x2, x3, x4, x5, x6, x7, x8, x9, x10, x11, x12, x13, x14, x15,
                   x16, x17, x18, x19]"
    using assms(1) by (rule list_of_length_20)
  have uuid: "uuid
      = hex_byte x0 @ hex_byte x1 @ hex_byte x2 @ hex_byte x3 @ [0x2D]
        @ hex_byte x4 @ hex_byte x5 @ [0x2D]
        @ hex_byte ((x6 AND 0x0F) OR 0x50) @ hex_byte x7 @ [0x2D]
        @ hex_byte ((x8 AND 0x3F) OR 0x80) @ hex_byte x9 @ [0x2D]
        @ hex_byte x10 @ hex_byte x11 @ hex_byte x12 @ hex_byte x13 @ hex_byte x14
        @ hex_byte x15"
    unfolding uuid_def h by (simp add: formatUuid_16)
  show "length uuid = 36"
    unfolding uuid by (simp add: hex_byte_def)
  show "uuid ! 8 = 0x2D \<and> uuid ! 13 = 0x2D \<and> uuid ! 18 = 0x2D \<and> uuid ! 23 = 0x2D"
    unfolding uuid by (simp add: hex_byte_def)
  show "uuid ! 14 = 0x35"
    unfolding uuid by (simp add: hex_byte_def version_digit)
  show "uuid ! 19 \<in> {0x38, 0x39, 0x61, 0x62}"
    unfolding uuid using variant_digit [of x8] by (simp add: hex_byte_def)
qed

text \<open>
  C3. \<open>deriveAgentId\<close> of a public-key field is a function of that string alone: the
  SHA-1 digest of the sixteen bytes of the namespace constant followed by the UTF-8
  bytes of the string, cut to sixteen bytes, with the version and variant bits set, and
  printed as a UUID. The result has 36 characters with hyphens at the four places of
  a UUID; its version digit is \<open>5\<close> and its variant digit is one of \<open>8\<close>, \<open>9\<close>, \<open>a\<close>,
  \<open>b\<close>, which are the two variant bits \<open>10\<close> of RFC 4122.
\<close>

theorem deriveAgentId_uuid5:
  "deriveAgentId publicKeyField
   = formatUuid
       ((take 16 (sha1 ([0x80, 0x1B, 0xA5, 0x18, 0xF3, 0x26, 0x47, 0xE5, 0x97, 0xC9, 0xD1,
                         0xEF, 0xD1, 0x86, 0x5A, 0x19] @ utf8_encode publicKeyField)))
          [6 := (take 16 (sha1 ([0x80, 0x1B, 0xA5, 0x18, 0xF3, 0x26, 0x47, 0xE5, 0x97, 0xC9,
                                 0xD1, 0xEF, 0xD1, 0x86, 0x5A, 0x19]
                                @ utf8_encode publicKeyField)) ! 6 AND 0x0F) OR 0x50,
           8 := (take 16 (sha1 ([0x80, 0x1B, 0xA5, 0x18, 0xF3, 0x26, 0x47, 0xE5, 0x97, 0xC9,
                                 0xD1, 0xEF, 0xD1, 0x86, 0x5A, 0x19]
                                @ utf8_encode publicKeyField)) ! 8 AND 0x3F) OR 0x80])
   \<and> length (deriveAgentId publicKeyField) = 36
   \<and> deriveAgentId publicKeyField ! 8 = 0x2D \<and> deriveAgentId publicKeyField ! 13 = 0x2D
   \<and> deriveAgentId publicKeyField ! 18 = 0x2D \<and> deriveAgentId publicKeyField ! 23 = 0x2D
   \<and> deriveAgentId publicKeyField ! 14 = 0x35
   \<and> deriveAgentId publicKeyField ! 19 \<in> {0x38, 0x39, 0x61, 0x62}"
proof -
  define h where
    "h = sha1 ([0x80, 0x1B, 0xA5, 0x18, 0xF3, 0x26, 0x47, 0xE5, 0x97, 0xC9, 0xD1, 0xEF, 0xD1,
                0x86, 0x5A, 0x19] @ utf8_encode publicKeyField)"
  have derive: "deriveAgentId publicKeyField
      = formatUuid ((take 16 h)[6 := (take 16 h ! 6 AND 0x0F) OR 0x50,
                                8 := (take 16 h ! 8 AND 0x3F) OR 0x80])"
    by (simp add: deriveAgentId_def uuidv5_def NIT_NAMESPACE_bytes Let_def h_def
        sha1_digest_def Hash_update_def createHash_def)
  have "length h = 20"
    by (simp add: h_def)
  from uuid_shape [OF this] derive show ?thesis
    unfolding h_def by simp
qed

section \<open>The file system\<close>

lemma ancestors_from_iff:
  "a \<in> set (ancestors_from pre s)
   \<longleftrightarrow> a \<noteq> [] \<and> (\<exists>u v. s = u @ 0x2F # v \<and> a = pre @ u)"
proof (induction s arbitrary: pre)
  case Nil
  then show ?case by simp
next
  case (Cons x s)
  have split: "(\<exists>u v. x # s = u @ 0x2F # v \<and> a = pre @ u)
      \<longleftrightarrow> (x = 0x2F \<and> a = pre) \<or> (\<exists>u v. s = u @ 0x2F # v \<and> a = (pre @ [x]) @ u)"
    by (auto simp: Cons_eq_append_conv)
  show ?case
    unfolding split using Cons.IH [of "pre @ [x]"] by auto
qed

lemma ancestors_iff: "a \<in> set (ancestors p) \<longleftrightarrow> a \<noteq> [] \<and> (\<exists>v. p = a @ 0x2F # v)"
  by (auto simp: ancestors_def ancestors_from_iff)

lemma blocked_iff:
  "blocked w p \<longleftrightarrow> (\<exists>a v. a \<noteq> [] \<and> p = a @ 0x2F # v \<and> nit_files w a \<noteq> None)"
  by (auto simp: blocked_def list_ex_iff ancestors_iff)

lemma blocked_cong: "nit_files w' = nit_files w \<Longrightarrow> blocked w' p = blocked w p"
  by (simp add: blocked_iff)

lemma accepts_cong:
  "refused w' = refused w \<Longrightarrow> nit_files w' = nit_files w \<Longrightarrow> accepts w' t = accepts w t"
  using blocked_cong [of w' w] by (cases t) simp_all

text \<open>A new file blocks only the paths that go through it.\<close>

lemma blocked_new_file:
  assumes "nit_files w' = (nit_files w)(q \<mapsto> bytes)" and "\<And>v. p \<noteq> q @ 0x2F # v"
  shows "blocked w' p = blocked w p"
  using assms by (auto simp: blocked_iff)

subsection \<open>The paths of objects\<close>

lemma objectDir_take: "objectDir h = S ''objects/'' @ take 2 h"
  by (simp add: objectDir_def slice_zero_nonneg)

lemma objectFile_take: "objectFile h = S ''objects/'' @ take 2 h @ S ''/'' @ drop 2 h"
  by (simp add: objectFile_def slice_zero_nonneg)

lemma length_objectFile: "length h = 64 \<Longrightarrow> length (objectFile h) = 73"
  by (simp add: objectFile_take)

lemma objectFile_inject:
  assumes "length h = 64" and "length h' = 64" and "objectFile h = objectFile h'"
  shows "h = h'"
proof -
  from assms have "take 2 h = take 2 h'" and "drop 2 h = drop 2 h'"
    by (simp_all add: objectFile_take)
  then have "take 2 h @ drop 2 h = take 2 h' @ drop 2 h'"
    by simp
  then show ?thesis
    by (simp only: append_take_drop_id)
qed

lemma objectFile_not_HEAD: "S ''HEAD'' \<noteq> objectFile h"
  by (simp add: objectFile_take)

lemma objectFile_not_ref: "S ''refs/heads/'' @ b \<noteq> objectFile h"
  by (simp add: objectFile_take)

text \<open>
  No path that the operations write goes through the file of an object with a name of
  64 characters.
\<close>

lemma objectFile_beside_objectFile:
  assumes "length h = 64" and "length h' = 64"
  shows "objectFile h' \<noteq> objectFile h @ 0x2F # v"
proof
  assume "objectFile h' = objectFile h @ 0x2F # v"
  then have "length (objectFile h') = length (objectFile h @ 0x2F # v)"
    by (rule arg_cong)
  then show False
    using length_objectFile [OF assms(1)] length_objectFile [OF assms(2)] by simp
qed

lemma objectFile_beside_objectDir:
  assumes "length h = 64"
  shows "objectDir h' @ S ''/'' \<noteq> objectFile h @ 0x2F # v"
proof
  assume "objectDir h' @ S ''/'' = objectFile h @ 0x2F # v"
  then have "length (objectDir h' @ S ''/'') = length (objectFile h @ 0x2F # v)"
    by (rule arg_cong)
  moreover have "length (objectDir h' @ S ''/'') \<le> 11"
    by (simp add: objectDir_take)
  ultimately show False
    using length_objectFile [OF assms] by simp
qed

lemma objectFile_beside_refs: "S ''refs/heads'' @ r \<noteq> objectFile h @ 0x2F # v"
  by (simp add: objectFile_take)

subsection \<open>Digests as names\<close>

lemma hashObject_length: "length (hashObject k c) = 64"
  by (simp add: hashObject_def Let_def sha256_digest_hex_def)

lemma hashObject_lower_hex: "list_all is_lower_hex (hashObject k c)"
  by (simp add: hashObject_def Let_def sha256_digest_hex_def hex_encode_lower)

lemma lower_hex_ascii: "is_lower_hex u \<Longrightarrow> is_ascii u"
  by (auto simp: is_lower_hex_def is_ascii_def word_le_nat_alt word_less_nat_alt)

lemma lower_hex_not_space: "is_lower_hex u \<Longrightarrow> \<not> is_white_space u"
  by (auto simp: is_lower_hex_def is_white_space_def word_le_nat_alt)

lemma lower_hex_not_LF: "is_lower_hex u \<Longrightarrow> u \<noteq> LF"
  by (auto simp: is_lower_hex_def)

lemma hashObject_ascii: "list_all is_ascii (hashObject k c)"
  using hashObject_lower_hex [of k c] lower_hex_ascii by (auto simp: list_all_iff)

lemma hashObject_no_LF: "LF \<notin> set (hashObject k c)"
  using hashObject_lower_hex [of k c] lower_hex_not_LF by (auto simp: list_all_iff)

lemma hashObject_not_Nil: "hashObject k c \<noteq> []"
  using hashObject_length [of k c] by auto

lemma dropWhile_keep: "xs \<noteq> [] \<Longrightarrow> \<not> P (hd xs) \<Longrightarrow> dropWhile P xs = xs"
  by (cases xs) auto

lemma trim_line:
  assumes "s \<noteq> []" and "list_all (\<lambda>u. \<not> is_white_space u) s"
  shows "trim (s @ [LF]) = s"
proof -
  have first: "\<not> is_white_space (hd s)"
    using assms by (cases s) auto
  have "last s \<in> set s"
    using assms(1) by simp
  then have final: "\<not> is_white_space (last s)"
    using assms(2) by (simp add: list_all_iff)
  have lf: "is_white_space LF"
    by (simp add: is_white_space_def)
  have "dropWhile is_white_space (s @ [LF]) = s @ [LF]"
    using first assms(1) by (intro dropWhile_keep) simp_all
  moreover have "dropWhile is_white_space (LF # rev s) = rev s"
  proof -
    have "dropWhile is_white_space (rev s) = rev s"
      using final assms(1) by (intro dropWhile_keep) (simp_all add: hd_rev)
    then show ?thesis
      using lf by simp
  qed
  ultimately show ?thesis
    by (simp add: trim_def)
qed

lemma trim_hashObject: "trim (hashObject k c @ [LF]) = hashObject k c"
  using hashObject_lower_hex [of k c] lower_hex_not_space
  by (intro trim_line hashObject_not_Nil) (auto simp: list_all_iff)

subsection \<open>Writing an object\<close>

text \<open>The outcomes of \<open>writeObject\<close>, by what it finds.\<close>

lemma writeObject_cases:
  "writeObject k c w =
     (let h = hashObject k c
      in if objectExists w h then Inr (h, w)
         else if accepts w (NitDir (objectDir h)) then
           if accepts w (NitFile (objectFile h)) then
             Inr (h, w\<lparr>nit_files := (nit_files w)(objectFile h \<mapsto> utf8_encode c),
                        journal := journal w @ [NitFile (objectFile h)]\<rparr>)
           else Inl (SystemError (NitFile (objectFile h)))
         else Inl (SystemError (NitDir (objectDir h))))"
  by (simp add: writeObject_def objectExists_def mkdir_def writeFile_def Let_def)

lemma writeObject_Inl: "writeObject k c w = Inl err \<Longrightarrow> \<exists>t. err = SystemError t"
  by (auto simp: writeObject_cases Let_def split: if_splits)

lemma writeObject_Inr:
  assumes "writeObject k c w = Inr (h, w')"
  shows "h = hashObject k c"
    and "w' = (if objectExists w h then w
               else w\<lparr>nit_files := (nit_files w)(objectFile h \<mapsto> utf8_encode c),
                      journal := journal w @ [NitFile (objectFile h)]\<rparr>)"
  using assms by (auto simp: writeObject_cases Let_def split: if_splits)

lemma writeObject_accepted:
  assumes "accepts w (NitDir (objectDir (hashObject k c)))"
    and "accepts w (NitFile (objectFile (hashObject k c)))"
  shows "\<exists>w'. writeObject k c w = Inr (hashObject k c, w')"
  using assms by (simp add: writeObject_cases Let_def)

lemma writeObject_state:
  assumes "writeObject k c w = Inr (h, w')"
  shows "nit_dir w' = nit_dir w" and "card_file w' = card_file w"
    and "refused w' = refused w"
    and "objectExists w' h"
    and "journal w' = journal w @ (if objectExists w h then [] else [NitFile (objectFile h)])"
    and "nit_files w' = nit_files w
         \<or> nit_files w' = (nit_files w)(objectFile h \<mapsto> utf8_encode c)"
  using writeObject_Inr(2) [OF assms] by (auto simp: objectExists_def)

lemma writeObject_keeps:
  assumes "writeObject k c w = Inr (h, w')" and "nit_files w f = Some bytes"
  shows "nit_files w' f = Some bytes"
  using writeObject_Inr(2) [OF assms(1)] assms(2) by (auto simp: objectExists_def)

lemma writeObject_other:
  assumes "writeObject k c w = Inr (h, w')" and "f \<noteq> objectFile h"
  shows "nit_files w' f = nit_files w f"
  using writeObject_Inr(2) [OF assms(1)] assms(2) by auto

lemma writeObject_new:
  assumes "writeObject k c w = Inr (h, w')" and "\<not> objectExists w h"
  shows "nit_files w' (objectFile h) = Some (utf8_encode c)"
  using writeObject_Inr(2) [OF assms(1)] assms(2) by auto

lemma writeObject_blocked:
  assumes "writeObject k c w = Inr (h, w')" and "\<And>v. p \<noteq> objectFile h @ 0x2F # v"
  shows "blocked w' p = blocked w p"
proof (cases "objectExists w h")
  case True
  with writeObject_Inr(2) [OF assms(1)] show ?thesis
    by simp
next
  case False
  with writeObject_Inr(2) [OF assms(1)]
  have "nit_files w' = (nit_files w)(objectFile h \<mapsto> utf8_encode c)"
    by simp
  then show ?thesis
    using assms(2) by (rule blocked_new_file)
qed

text \<open>What the file system accepts after an object is written.\<close>

lemma writeObject_accepts:
  assumes "writeObject k c w = Inr (h, w')"
  shows "accepts w' CardFile = accepts w CardFile"
    and "length h' = 64 \<Longrightarrow>
         accepts w' (NitFile (objectFile h')) = accepts w (NitFile (objectFile h'))"
    and "accepts w' (NitDir (objectDir h')) = accepts w (NitDir (objectDir h'))"
    and "accepts w' (NitDir (S ''refs/heads'')) = accepts w (NitDir (S ''refs/heads''))"
    and "accepts w' (NitFile (S ''refs/heads/'' @ b)) = accepts w (NitFile (S ''refs/heads/'' @ b))"
proof -
  have h: "length h = 64"
    using writeObject_Inr(1) [OF assms] hashObject_length by simp
  note same = writeObject_state(3) [OF assms]
  show "accepts w' CardFile = accepts w CardFile"
    using same by simp
  show "accepts w' (NitFile (objectFile h')) = accepts w (NitFile (objectFile h'))"
    if "length h' = 64"
    using same writeObject_blocked [OF assms objectFile_beside_objectFile [OF h that]]
    by simp
  show "accepts w' (NitDir (objectDir h')) = accepts w (NitDir (objectDir h'))"
    using same writeObject_blocked [OF assms objectFile_beside_objectDir [OF h]]
    by simp
  show "accepts w' (NitDir (S ''refs/heads'')) = accepts w (NitDir (S ''refs/heads''))"
    using same writeObject_blocked [OF assms objectFile_beside_refs [of "S ''/''"]]
    by simp
  show "accepts w' (NitFile (S ''refs/heads/'' @ b)) = accepts w (NitFile (S ''refs/heads/'' @ b))"
    using same writeObject_blocked [OF assms objectFile_beside_refs [of "S ''/'' @ b"]]
    by simp
qed

subsection \<open>Reading after writing\<close>

lemma readFile_cong: "nit_files w' f = nit_files w f \<Longrightarrow> readFile w' f = readFile w f"
  by (simp add: readFile_def)

lemma getCurrentBranch_cong:
  "nit_files w' (S ''HEAD'') = nit_files w (S ''HEAD'') \<Longrightarrow>
   getCurrentBranch w' = getCurrentBranch w"
  by (simp add: getCurrentBranch_def getHead_def readFile_def)

lemma getBranch_cong:
  "nit_files w' (S ''refs/heads/'' @ b) = nit_files w (S ''refs/heads/'' @ b) \<Longrightarrow>
   getBranch w' b = getBranch w b"
  by (simp add: getBranch_def readFile_def)

lemma getAuthorName_cong: "card_file w' = card_file w \<Longrightarrow> getAuthorName e w' = getAuthorName e w"
  by (simp add: getAuthorName_def readWorkingCard_def)

lemma readObject_Inr: "readObject w h = Inr raw \<longleftrightarrow> readFile w (objectFile h) = Some raw"
  by (simp add: readObject_def split: option.splits)

lemma readObject_keeps:
  assumes "writeObject k c w = Inr (h', w')" and "readObject w h = Inr raw"
  shows "readObject w' h = Inr raw"
proof -
  from assms(2) obtain bytes where bytes: "nit_files w (objectFile h) = Some bytes"
    and raw: "utf8_decode bytes = raw"
    by (auto simp: readObject_Inr readFile_def)
  from writeObject_keeps [OF assms(1) bytes] raw show ?thesis
    by (simp add: readObject_Inr readFile_def)
qed

lemma writeObject_reads:
  assumes "writeObject k c w = Inr (h, w')"
  shows "getCurrentBranch w' = getCurrentBranch w" and "getBranch w' b = getBranch w b"
    and "getAuthorName e w' = getAuthorName e w"
proof -
  show "getCurrentBranch w' = getCurrentBranch w"
    by (rule getCurrentBranch_cong) (rule writeObject_other [OF assms objectFile_not_HEAD])
  show "getBranch w' b = getBranch w b"
    by (rule getBranch_cong) (rule writeObject_other [OF assms objectFile_not_ref])
  show "getAuthorName e w' = getAuthorName e w"
    by (rule getAuthorName_cong) (rule writeObject_state(2) [OF assms])
qed

subsection \<open>The working card and the references\<close>

lemma writeWorkingCard_cases:
  "writeWorkingCard c w =
     (if accepts w CardFile
      then Inr (w\<lparr>card_file := Some (utf8_encode (JSON_stringify_2 c @ [LF])),
                  journal := journal w @ [CardFile]\<rparr>)
      else Inl (SystemError CardFile))"
  by (simp add: writeWorkingCard_def)

lemma writeWorkingCard_Inr:
  assumes "writeWorkingCard c w = Inr w'"
  shows "w' = w\<lparr>card_file := Some (utf8_encode (JSON_stringify_2 c @ [LF])),
                 journal := journal w @ [CardFile]\<rparr>"
  using assms by (simp add: writeWorkingCard_def split: if_splits)

lemma writeWorkingCard_state:
  assumes "writeWorkingCard c w = Inr w'"
  shows "nit_files w' = nit_files w" and "refused w' = refused w" and "nit_dir w' = nit_dir w"
    and "card_file w' = Some (utf8_encode (JSON_stringify_2 c @ [LF]))"
    and "journal w' = journal w @ [CardFile]"
    and "accepts w' t = accepts w t"
proof -
  note w' = writeWorkingCard_Inr [OF assms]
  show "nit_files w' = nit_files w" and "refused w' = refused w" and "nit_dir w' = nit_dir w"
    and "card_file w' = Some (utf8_encode (JSON_stringify_2 c @ [LF]))"
    and "journal w' = journal w @ [CardFile]"
    by (simp_all add: w')
  then show "accepts w' t = accepts w t"
    by (intro accepts_cong)
qed

lemma setBranch_cases:
  "setBranch b h w =
     (if accepts w (NitDir (S ''refs/heads'')) then
        if accepts w (NitFile (S ''refs/heads/'' @ b)) then
          Inr (w\<lparr>nit_files := (nit_files w)(S ''refs/heads/'' @ b \<mapsto> utf8_encode (h @ [LF])),
                 journal := journal w @ [NitFile (S ''refs/heads/'' @ b)]\<rparr>)
        else Inl (SystemError (NitFile (S ''refs/heads/'' @ b)))
      else Inl (SystemError (NitDir (S ''refs/heads''))))"
  by (simp add: setBranch_def mkdir_def writeFile_def)

lemma setBranch_Inr:
  assumes "setBranch b h w = Inr w'"
  shows "w' = w\<lparr>nit_files := (nit_files w)(S ''refs/heads/'' @ b \<mapsto> utf8_encode (h @ [LF])),
                 journal := journal w @ [NitFile (S ''refs/heads/'' @ b)]\<rparr>"
  using assms by (simp add: setBranch_cases split: if_splits)

lemma setBranch_Inl: "setBranch b h w = Inl err \<Longrightarrow> \<exists>t. err = SystemError t"
  by (auto simp: setBranch_cases split: if_splits)

lemma getBranch_setBranch_hash:
  assumes "setBranch b (hashObject k c) w = Inr w'"
  shows "getBranch w' b = Some (hashObject k c)"
proof -
  have "list_all is_ascii (hashObject k c @ [LF])"
    using hashObject_ascii [of k c] by (simp add: is_ascii_def)
  then have "utf8_decode (utf8_encode (hashObject k c @ [LF])) = hashObject k c @ [LF]"
    by (rule utf8_decode_encode_ascii)
  then show ?thesis
    by (simp add: setBranch_Inr [OF assms] getBranch_def readFile_def trim_hashObject)
qed

lemma setBranch_state:
  assumes "setBranch b h w = Inr w'"
  shows "card_file w' = card_file w"
    and "f \<noteq> S ''refs/heads/'' @ b \<Longrightarrow> nit_files w' f = nit_files w f"
    and "journal w' = journal w @ [NitFile (S ''refs/heads/'' @ b)]"
  by (simp_all add: setBranch_Inr [OF assms])

declare accepts.simps [simp del]

section \<open>Writing an object twice\<close>

text \<open>
  C6, as the code has it. When \<open>writeObject\<close> returns for a type and content, a second
  call with the same type and content returns too: it returns the same digest, which
  is \<open>hashObject\<close> of the type and content, and leaves the state, hence every stored
  byte, as the first call left it; a file exists at the path of the digest.
\<close>

theorem writeObject_idempotent:
  assumes "writeObject k c w = Inr (h1, w1)"
  shows "h1 = hashObject k c \<and> objectExists w1 h1 \<and> writeObject k c w1 = Inr (h1, w1)"
proof -
  note h1 = writeObject_Inr(1) [OF assms]
  note stored = writeObject_state(4) [OF assms]
  from stored have "writeObject k c w1 = Inr (h1, w1)"
    unfolding h1 by (simp add: writeObject_cases Let_def)
  with h1 stored show ?thesis
    by simp
qed

text \<open>
  In a repository that holds only HEAD, the first call writes the object and the
  second finds it.
\<close>

theorem writeObject_idempotent_witness:
  "writeObject Card (S ''{}'')
     \<lparr>nit_dir = True, card_file = None,
      nit_files = [S ''HEAD'' \<mapsto> utf8_encode (S ''ref: refs/heads/main'' @ [LF])],
      refused = (\<lambda>t. False), journal = []\<rparr>
   = Inr (hashObject Card (S ''{}''),
          \<lparr>nit_dir = True, card_file = None,
           nit_files =
             [S ''HEAD'' \<mapsto> utf8_encode (S ''ref: refs/heads/main'' @ [LF]),
              objectFile (hashObject Card (S ''{}'')) \<mapsto> utf8_encode (S ''{}'')],
           refused = (\<lambda>t. False),
           journal = [NitFile (objectFile (hashObject Card (S ''{}'')))]\<rparr>)
   \<and> writeObject Card (S ''{}'')
         \<lparr>nit_dir = True, card_file = None,
          nit_files =
            [S ''HEAD'' \<mapsto> utf8_encode (S ''ref: refs/heads/main'' @ [LF]),
             objectFile (hashObject Card (S ''{}'')) \<mapsto> utf8_encode (S ''{}'')],
          refused = (\<lambda>t. False),
          journal = [NitFile (objectFile (hashObject Card (S ''{}'')))]\<rparr>
       = Inr (hashObject Card (S ''{}''),
              \<lparr>nit_dir = True, card_file = None,
               nit_files =
                 [S ''HEAD'' \<mapsto> utf8_encode (S ''ref: refs/heads/main'' @ [LF]),
                  objectFile (hashObject Card (S ''{}'')) \<mapsto> utf8_encode (S ''{}'')],
               refused = (\<lambda>t. False),
               journal = [NitFile (objectFile (hashObject Card (S ''{}'')))]\<rparr>)"
proof -
  define head where "head = utf8_encode (S ''ref: refs/heads/main'' @ [LF])"
  define h where "h = hashObject Card (S ''{}'')"
  define w where
    "w = \<lparr>nit_dir = True, card_file = None, nit_files = [S ''HEAD'' \<mapsto> head],
          refused = (\<lambda>t. False), journal = []\<rparr>"
  have files: "nit_files w a = (if a = S ''HEAD'' then Some head else None)" for a
    by (simp add: w_def del: S_Cons)
  have absent: "\<not> objectExists w h"
    by (simp add: objectExists_def files objectFile_take)
  have "\<not> blocked w (objectDir h @ S ''/'')" and "\<not> blocked w (objectFile h)"
    by (simp_all add: blocked_iff files objectDir_take objectFile_take)
  then have "accepts w (NitDir (objectDir h))" and "accepts w (NitFile (objectFile h))"
    by (simp_all add: accepts.simps w_def del: S_Cons)
  with absent have first: "writeObject Card (S ''{}'') w
      = Inr (h, w\<lparr>nit_files := (nit_files w)(objectFile h \<mapsto> utf8_encode (S ''{}'')),
                  journal := journal w @ [NitFile (objectFile h)]\<rparr>)"
    unfolding h_def by (simp add: writeObject_cases Let_def del: S_Cons utf8_encode.simps)
  from writeObject_idempotent [OF first] first show ?thesis
    unfolding w_def h_def head_def by (simp del: S_Cons utf8_encode.simps)
qed

text \<open>
  The claim as stated, that the two calls never fail: where \<^verbatim>\<open>objects\<close> is a regular
  file, \<^verbatim>\<open>fs.access\<close> does not find the object, the directory cannot be made, and
  \<open>writeObject\<close> fails, the first time and every time.
\<close>

theorem writeObject_idempotent_counterexample:
  "writeObject Card (S ''{}'')
     \<lparr>nit_dir = True, card_file = None, nit_files = [S ''objects'' \<mapsto> []],
      refused = (\<lambda>t. False), journal = []\<rparr>
   = Inl (SystemError (NitDir (objectDir (hashObject Card (S ''{}'')))))"
proof -
  define h where "h = hashObject Card (S ''{}'')"
  define w where
    "w = \<lparr>nit_dir = True, card_file = None, nit_files = [S ''objects'' \<mapsto> []],
          refused = (\<lambda>t. False), journal = []\<rparr>"
  have files: "nit_files w a = (if a = S ''objects'' then Some [] else None)" for a
    by (simp add: w_def del: S_Cons)
  have absent: "\<not> objectExists w h"
    by (simp add: objectExists_def files objectFile_take)
  have "objectDir h @ S ''/'' = S ''objects'' @ 0x2F # (take 2 h @ S ''/'')"
    by (simp add: objectDir_take)
  moreover have "nit_files w (S ''objects'') \<noteq> None" and "S ''objects'' \<noteq> []"
    by (simp_all add: files)
  ultimately have "blocked w (objectDir h @ S ''/'')"
    unfolding blocked_iff by blast
  then have "\<not> accepts w (NitDir (objectDir h))"
    by (simp add: accepts.simps)
  with absent have "writeObject Card (S ''{}'') w = Inl (SystemError (NitDir (objectDir h)))"
    unfolding h_def by (simp add: writeObject_cases Let_def)
  then show ?thesis
    unfolding w_def h_def .
qed

section \<open>Committing\<close>

lemma property_error: "property v key = Inl err \<Longrightarrow> err = TypeError"
  by (auto simp: property_def split: option.splits)

lemma skills_of_error: "skills_of c = Inl err \<Longrightarrow> err = TypeError"
  by (cases "property c (S ''skills'')")
    (auto simp: skills_of_def dest: property_error split: option.splits jsval.splits)

lemma resolve_skill_error: "resolve_skill ds s = Inl err \<Longrightarrow> err = TypeError"
  by (cases "property s (S ''id'')")
    (auto simp: resolve_skill_def dest: property_error split: option.splits jsval.splits)

lemma resolve_skills_error: "resolve_skills ds ss = Inl err \<Longrightarrow> err = TypeError"
proof (induction ss arbitrary: err)
  case Nil
  then show ?case by simp
next
  case (Cons s ss)
  show ?case
  proof (cases "resolve_skill ds s")
    case (Inl e1)
    with Cons.prems show ?thesis
      by (auto dest: resolve_skill_error)
  next
    case (Inr s')
    show ?thesis
    proof (cases "resolve_skills ds ss")
      case (Inl e2)
      with Inr Cons show ?thesis by auto
    next
      case (Inr rest)
      with \<open>resolve_skill ds s = Inr s'\<close> Cons.prems show ?thesis by simp
    qed
  qed
qed

lemma resolveSkillPointers_error: "resolveSkillPointers e c = Inl err \<Longrightarrow> err = TypeError"
proof -
  assume a: "resolveSkillPointers e c = Inl err"
  show ?thesis
  proof (cases "skills_of c")
    case (Inl e1)
    with a show ?thesis
      by (auto simp: resolveSkillPointers_def dest: skills_of_error)
  next
    case (Inr ss)
    show ?thesis
    proof (cases "resolve_skills (discoverSkills e) ss")
      case (Inl e2)
      with Inr a show ?thesis
        by (auto simp: resolveSkillPointers_def dest: resolve_skills_error)
    next
      case (Inr rs)
      with \<open>skills_of c = Inr ss\<close> a show ?thesis
        by (auto simp: resolveSkillPointers_def split: jsval.splits)
    qed
  qed
qed

lemma readWorkingCard_error: "readWorkingCard e w = Inl err \<Longrightarrow> err = CannotReadCard"
  by (auto simp: readWorkingCard_def split: option.splits sum.splits)

lemma read_and_resolve_error:
  "and_then (findNitDir w) (\<lambda>u. and_then (readWorkingCard e w) (resolveSkillPointers e))
   = Inl err \<Longrightarrow>
   err \<noteq> NothingToCommit"
  by (cases "readWorkingCard e w")
    (auto simp: findNitDir_def dest: readWorkingCard_error resolveSkillPointers_error
      split: if_splits)

lemma read_and_resolve_Inr:
  "and_then (findNitDir w) (\<lambda>u. and_then (readWorkingCard e w) (resolveSkillPointers e))
   = Inr c \<Longrightarrow>
   nit_dir w \<and> (\<exists>c0. readWorkingCard e w = Inr c0 \<and> resolveSkillPointers e c0 = Inr c)"
  by (cases "readWorkingCard e w") (auto simp: findNitDir_def split: if_splits)

lemma getCurrentBranch_error: "getCurrentBranch w = Inl err \<Longrightarrow> err \<noteq> NothingToCommit"
  by (auto simp: getCurrentBranch_def getHead_def Let_def and_then_def
      split: option.splits if_splits sum.splits)

text \<open>
  \<open>commit\<close> once the card is read, resolved, written back and stored, and HEAD names a
  branch.
\<close>

lemma commit_after_card:
  assumes "nit_dir w" and "readWorkingCard e w = Inr c0" and "resolveSkillPointers e c0 = Inr c"
    and "writeWorkingCard c w = Inr w1"
    and "writeObject Card (JSON_stringify_2 c) w1 = Inr (cardHash, w2)"
    and "getCurrentBranch w = Inr b"
  shows "commit e msg w =
    (let parentHash = getBranch w b
     in case check_unchanged w2 parentHash cardHash of
          Inl err \<Rightarrow> (Inl err, w2)
        | Inr u \<Rightarrow>
            (let a = getAuthorName e w2;
                 seconds = Num (int (Date_now e div 1000));
                 content = serializeCommit
                             \<lparr>cf_card = cardHash, cf_parent = parentHash, cf_author = a,
                              cf_timestamp = seconds, cf_message = msg\<rparr>
             in case writeObject Commit content w2 of
                  Inl err \<Rightarrow> (Inl err, w2)
                | Inr (commitHash, w3) \<Rightarrow>
                    (case setBranch b commitHash w3 of
                       Inl err \<Rightarrow> (Inl err, w3)
                     | Inr w4 \<Rightarrow>
                         (Inr \<lparr>hash = commitHash, card' = cardHash, parent = parentHash,
                                author = a, timestamp = seconds, message = msg\<rparr>, w4))))"
proof -
  have "getCurrentBranch w1 = getCurrentBranch w"
    by (rule getCurrentBranch_cong) (simp add: writeWorkingCard_state(1) [OF assms(4)])
  then have branch: "getCurrentBranch w2 = Inr b"
    using writeObject_reads(1) [OF assms(5)] assms(6) by simp
  have "getBranch w1 b = getBranch w b"
    by (rule getBranch_cong) (simp add: writeWorkingCard_state(1) [OF assms(4)])
  then have parent: "getBranch w2 b = getBranch w b"
    using writeObject_reads(2) [OF assms(5)] by simp
  show ?thesis
    unfolding commit_def
    by (simp add: findNitDir_def assms(1-5) Let_def branch parent)
qed

lemma check_unchanged_tip:
  assumes "tip \<noteq> []" and "readObject w tip = Inr raw" and "parseCommit tip raw = Inr tipCommit"
  shows "check_unchanged w (Some tip) cardHash
         = (if card' tipCommit = cardHash then Inl NothingToCommit else Inr ())"
  using assms by (simp add: check_unchanged_def)

section \<open>The outcome of a commit\<close>

lemma commit_with_tip:
  fixes e :: env and w :: world and c :: jsval and tip b msg :: jsstring
  defines "cardHash \<equiv> hashObject Card (JSON_stringify_2 c)"
    and "a \<equiv> getAuthorName e (w\<lparr>card_file := Some (utf8_encode (JSON_stringify_2 c @ [LF]))\<rparr>)"
    and "seconds \<equiv> Num (int (Date_now e div 1000))"
  defines "content \<equiv> serializeCommit
                        \<lparr>cf_card = cardHash, cf_parent = Some tip, cf_author = a,
                         cf_timestamp = seconds, cf_message = msg\<rparr>"
  defines "commitHash \<equiv> hashObject Commit content"
  assumes "nit_dir w"
    and "readWorkingCard e w = Inr c0" and "resolveSkillPointers e c0 = Inr c"
    and "getCurrentBranch w = Inr b" and "getBranch w b = Some tip" and "tip \<noteq> []"
    and "readObject w tip = Inr raw" and "parseCommit tip raw = Inr tipCommit"
    and "list_all (accepts w)
           [CardFile, NitDir (objectDir cardHash), NitFile (objectFile cardHash),
            NitDir (objectDir commitHash), NitFile (objectFile commitHash),
            NitDir (S ''refs/heads''), NitFile (S ''refs/heads/'' @ b)]"
  shows "(fst (commit e msg w) = Inl NothingToCommit) = (card' tipCommit = cardHash)
     \<and> (if card' tipCommit = cardHash then True
         else fst (commit e msg w)
                = Inr \<lparr>hash = commitHash, card' = cardHash, parent = Some tip,
                       author = a, timestamp = seconds, message = msg\<rparr>
              \<and> objectExists (snd (commit e msg w)) commitHash
              \<and> (if objectExists w commitHash \<or> commitHash = cardHash then True
                  else nit_files (snd (commit e msg w)) (objectFile commitHash)
                       = Some (utf8_encode content))
              \<and> getBranch (snd (commit e msg w)) b = Some commitHash
              \<and> journal (snd (commit e msg w))
                  = journal w @ [CardFile]
                    @ (if objectExists w cardHash then []
                       else [NitFile (objectFile cardHash)])
                    @ (if objectExists w commitHash \<or> commitHash = cardHash then []
                       else [NitFile (objectFile commitHash)])
                    @ [NitFile (S ''refs/heads/'' @ b)])"
proof -
  note accepted = assms(14)
  obtain w1 where w1: "writeWorkingCard c w = Inr w1"
    using accepted by (simp add: writeWorkingCard_cases)
  note s1 = writeWorkingCard_state [OF w1]
  obtain w2 where w2: "writeObject Card (JSON_stringify_2 c) w1 = Inr (cardHash, w2)"
    using writeObject_accepted [of w1 Card "JSON_stringify_2 c"] accepted
    unfolding cardHash_def by (auto simp: s1(6))
  note s2 = writeObject_state [OF w2]
  have author: "getAuthorName e w2 = a"
    unfolding a_def writeObject_reads(3) [OF w2]
    by (rule getAuthorName_cong) (simp add: s1(4))
  have lengths: "length cardHash = 64" "length commitHash = 64"
    by (simp_all add: cardHash_def commitHash_def hashObject_length)
  obtain w3 where w3: "writeObject Commit content w2 = Inr (commitHash, w3)"
    using writeObject_accepted [of w2 Commit content] accepted lengths
    unfolding commitHash_def [symmetric]
    by (auto simp: writeObject_accepts(2,3) [OF w2] s1(6))
  note s3 = writeObject_state [OF w3]
  have "accepts w3 (NitDir (S ''refs/heads''))"
    and "accepts w3 (NitFile (S ''refs/heads/'' @ b))"
    unfolding writeObject_accepts(4,5) [OF w3] writeObject_accepts(4,5) [OF w2] s1(6)
    using accepted by (simp_all del: S_Cons)
  then obtain w4 where w4: "setBranch b commitHash w3 = Inr w4"
    by (simp add: setBranch_cases del: S_Cons)
  note s4 = setBranch_state [OF w4]
  have "readObject w1 tip = Inr raw"
    using assms(12) by (simp add: readObject_def readFile_def s1(1))
  with w2 have read: "readObject w2 tip = Inr raw"
    by (rule readObject_keeps)
  have check: "check_unchanged w2 (Some tip) cardHash
               = (if card' tipCommit = cardHash then Inl NothingToCommit else Inr ())"
    using assms(11) read assms(13) by (rule check_unchanged_tip)
  have run: "commit e msg w
      = (if card' tipCommit = cardHash then (Inl NothingToCommit, w2)
         else (Inr \<lparr>hash = commitHash, card' = cardHash, parent = Some tip, author = a,
                    timestamp = seconds, message = msg\<rparr>, w4))"
    unfolding commit_after_card [OF assms(6-8) w1 w2 assms(9)] assms(10) Let_def
    by (simp add: check author seconds_def [symmetric] content_def [symmetric] w3 w4)
  have before_card: "objectExists w1 cardHash = objectExists w cardHash"
    and before: "objectExists w1 commitHash = objectExists w commitHash"
    by (simp_all add: objectExists_def s1(1))
  have known: "objectExists w2 commitHash
               \<longleftrightarrow> objectExists w commitHash \<or> commitHash = cardHash"
  proof (cases "commitHash = cardHash")
    case True
    then show ?thesis
      using s2(4) by simp
  next
    case False
    then have "objectFile commitHash \<noteq> objectFile cardHash"
      using objectFile_inject [OF lengths(2,1)] by auto
    then have "nit_files w2 (objectFile commitHash) = nit_files w1 (objectFile commitHash)"
      by (rule writeObject_other [OF w2])
    then show ?thesis
      using False before by (simp add: objectExists_def)
  qed
  have exists: "objectExists w4 commitHash"
  proof -
    have "nit_files w4 (objectFile commitHash) = nit_files w3 (objectFile commitHash)"
      by (rule s4(2)) (simp add: objectFile_take)
    then show ?thesis
      using s3(4) by (simp add: objectExists_def)
  qed
  have fresh: "nit_files w4 (objectFile commitHash) = Some (utf8_encode content)"
    if "\<not> (objectExists w commitHash \<or> commitHash = cardHash)"
  proof -
    from that known have "\<not> objectExists w2 commitHash"
      by simp
    with w3 have "nit_files w3 (objectFile commitHash) = Some (utf8_encode content)"
      by (rule writeObject_new)
    moreover have "nit_files w4 (objectFile commitHash) = nit_files w3 (objectFile commitHash)"
      by (rule s4(2)) (simp add: objectFile_take)
    ultimately show ?thesis
      by simp
  qed
  have ref: "getBranch w4 b = Some commitHash"
    using w4 unfolding commitHash_def by (rule getBranch_setBranch_hash)
  have journal: "journal w4
      = journal w @ [CardFile]
        @ (if objectExists w cardHash then [] else [NitFile (objectFile cardHash)])
        @ (if objectExists w commitHash \<or> commitHash = cardHash then []
           else [NitFile (objectFile commitHash)])
        @ [NitFile (S ''refs/heads/'' @ b)]"
    by (simp only: s4(3) s3(5) s2(5) s1(5) known before_card append_assoc)
  show ?thesis
    unfolding run using exists fresh ref journal by (simp del: S_Cons)
qed


text \<open>
  C10. When \<open>commit\<close> fails with nothing to commit, its first two writes have
  succeeded and the state it leaves is the state after them: the working card file
  holds the resolved card, printed with an indentation of two and a final line feed,
  and the card object is in the store. The journal shows the write of the card file,
  and of the card object when it was not in the store before.
\<close>

theorem commit_nothing_to_commit_state:
  assumes "fst (commit e msg w) = Inl NothingToCommit"
  shows "\<exists>c0 c w1.
           readWorkingCard e w = Inr c0 \<and> resolveSkillPointers e c0 = Inr c
           \<and> writeWorkingCard c w = Inr w1
           \<and> writeObject Card (JSON_stringify_2 c) w1
               = Inr (hashObject Card (JSON_stringify_2 c), snd (commit e msg w))
           \<and> card_file (snd (commit e msg w)) = Some (utf8_encode (JSON_stringify_2 c @ [LF]))
           \<and> objectExists (snd (commit e msg w)) (hashObject Card (JSON_stringify_2 c))
           \<and> journal (snd (commit e msg w))
               = journal w @ [CardFile]
                 @ (if objectExists w (hashObject Card (JSON_stringify_2 c)) then []
                    else [NitFile (objectFile (hashObject Card (JSON_stringify_2 c)))])"
proof -
  let ?read = "and_then (findNitDir w) (\<lambda>u.
                 and_then (readWorkingCard e w) (resolveSkillPointers e))"
  obtain c where resolved: "?read = Inr c"
  proof (cases ?read)
    case (Inl err)
    then have "fst (commit e msg w) = Inl err"
      by (simp add: commit_def)
    with assms read_and_resolve_error [OF Inl] show ?thesis
      by simp
  next
    case (Inr c)
    then show ?thesis
      by (rule that)
  qed
  then obtain c0 where found: "nit_dir w" and c0: "readWorkingCard e w = Inr c0"
    and c: "resolveSkillPointers e c0 = Inr c"
    using read_and_resolve_Inr by blast
  let ?h = "hashObject Card (JSON_stringify_2 c)"
  obtain w1 where w1: "writeWorkingCard c w = Inr w1"
  proof (cases "writeWorkingCard c w")
    case (Inl err)
    then have "fst (commit e msg w) = Inl (SystemError CardFile)"
      unfolding commit_def resolved by (simp add: writeWorkingCard_def split: if_splits)
    with assms show ?thesis
      by simp
  next
    case (Inr w1)
    then show ?thesis
      by (rule that)
  qed
  note s1 = writeWorkingCard_state [OF w1]
  obtain w2 where w2: "writeObject Card (JSON_stringify_2 c) w1 = Inr (?h, w2)"
  proof (cases "writeObject Card (JSON_stringify_2 c) w1")
    case (Inl err)
    then have "fst (commit e msg w) = Inl err"
      unfolding commit_def resolved by (simp add: w1)
    with assms writeObject_Inl [OF Inl] show ?thesis
      by auto
  next
    case (Inr r)
    obtain h w2 where r: "r = (h, w2)"
      by (cases r)
    with Inr writeObject_Inr(1) [of Card "JSON_stringify_2 c" w1 h w2] show ?thesis
      by (intro that [of w2]) simp
  qed
  note s2 = writeObject_state [OF w2]
  obtain b where b: "getCurrentBranch w = Inr b"
  proof (cases "getCurrentBranch w")
    case (Inl err)
    have "getCurrentBranch w1 = getCurrentBranch w"
      by (rule getCurrentBranch_cong) (simp add: s1(1))
    with Inl have "getCurrentBranch w2 = Inl err"
      by (simp add: writeObject_reads(1) [OF w2])
    then have "fst (commit e msg w) = Inl err"
      unfolding commit_def resolved by (simp add: w1 w2)
    with assms getCurrentBranch_error [OF Inl] show ?thesis
      by simp
  next
    case (Inr b)
    then show ?thesis
      by (rule that)
  qed
  note run = commit_after_card [OF found c0 c w1 w2 b, of msg]
  have state: "snd (commit e msg w) = w2"
  proof (cases "check_unchanged w2 (getBranch w b) ?h")
    case (Inl err)
    then show ?thesis
      unfolding run Let_def by simp
  next
    case (Inr u)
    let ?content = "serializeCommit
        \<lparr>cf_card = ?h, cf_parent = getBranch w b, cf_author = getAuthorName e w2,
         cf_timestamp = Num (int (Date_now e div 1000)), cf_message = msg\<rparr>"
    show ?thesis
    proof (cases "writeObject Commit ?content w2")
      case (Inl err)
      with Inr have "fst (commit e msg w) = Inl err"
        unfolding run Let_def by simp
      with assms writeObject_Inl [OF Inl] show ?thesis
        by auto
    next
      case written: (Inr r)
      obtain h3 w3 where r: "r = (h3, w3)"
        by (cases r)
      show ?thesis
      proof (cases "setBranch b h3 w3")
        case (Inl err)
        with Inr written r have "fst (commit e msg w) = Inl err"
          unfolding run Let_def by simp
        with assms setBranch_Inl [OF Inl] show ?thesis
          by auto
      next
        case moved: (Inr w4)
        with Inr written r have "\<exists>nc. fst (commit e msg w) = Inr nc"
          unfolding run Let_def by simp
        with assms show ?thesis
          by auto
      qed
    qed
  qed
  have "objectExists w1 ?h = objectExists w ?h"
    by (simp add: objectExists_def s1(1))
  then have journal: "journal w2
      = journal w @ [CardFile]
        @ (if objectExists w ?h then [] else [NitFile (objectFile ?h)])"
    by (simp add: s2(5) s1(5))
  show ?thesis
    using c0 c w1 w2 state journal s2(2,4) s1(4)
    by (intro exI [of _ c0] exI [of _ c] exI [of _ w1]) simp
qed

section \<open>Switching branches\<close>

lemma uncommitted_message:
  "string_includes (error_message e UncommittedChanges) (S ''uncommitted changes'')"
  by (simp add: startsWith_def)

lemma uncommitted_guard_compared:
  assumes "resolveHead w = Inr headHash" and "getCardAtCommit e w headHash = Inr headCard"
    and "readWorkingCard e w = Inr workingCard"
    and "diffCards headCard workingCard = Inr d"
  shows "uncommitted_guard e w = (if changed d then Inl UncommittedChanges else Inr ())"
  unfolding uncommitted_guard_def
  using uncommitted_message [of e]
  by (simp add: assms del: error_message.simps S_Cons)

text \<open>
  C5. Let the repository be found, the commit of HEAD and the working card be
  readable, and let the diff engine compare the two cards. If it reports a change,
  \<open>checkout\<close> fails with uncommitted changes and writes nothing. If it reports none,
  the target branch exists, the card of its tip is readable and the file system
  accepts the writes of the card file and of HEAD, \<open>checkout\<close> succeeds: the working
  card file then holds the card of the target's tip, HEAD holds the reference to the
  target branch, and nothing else is written.
\<close>

theorem checkout_guard:
  assumes "nit_dir w"
    and "resolveHead w = Inr headHash" and "getCardAtCommit e w headHash = Inr headCard"
    and "readWorkingCard e w = Inr workingCard"
    and "diffCards headCard workingCard = Inr d"
    and "getBranch w branchName = Some targetHash" and "targetHash \<noteq> []"
    and "getCardAtCommit e w targetHash = Inr targetCard"
    and "accepts w CardFile" and "accepts w (NitFile (S ''HEAD''))"
  shows "checkout e branchName w
         = (if changed d then (Inl UncommittedChanges, w)
            else (Inr (),
                  w\<lparr>card_file := Some (utf8_encode (JSON_stringify_2 targetCard @ [LF])),
                    nit_files := (nit_files w)
                      (S ''HEAD'' \<mapsto> utf8_encode (S ''ref: refs/heads/'' @ branchName @ [LF])),
                    journal := journal w @ [CardFile, NitFile (S ''HEAD'')]\<rparr>))"
proof -
  let ?w1 = "w\<lparr>card_file := Some (utf8_encode (JSON_stringify_2 targetCard @ [LF])),
               journal := journal w @ [CardFile]\<rparr>"
  have card: "writeWorkingCard targetCard w = Inr ?w1"
    using assms(9) by (simp add: writeWorkingCard_cases)
  have "accepts ?w1 (NitFile (S ''HEAD''))"
    using assms(10) accepts_cong [of ?w1 w "NitFile (S ''HEAD'')"] by (simp del: S_Cons)
  then have head: "setHead branchName ?w1
      = Inr (?w1\<lparr>nit_files := (nit_files ?w1)
               (S ''HEAD'' \<mapsto> utf8_encode (S ''ref: refs/heads/'' @ branchName @ [LF])),
             journal := journal ?w1 @ [NitFile (S ''HEAD'')]\<rparr>)"
    by (simp add: setHead_def writeFile_def del: S_Cons)
  show ?thesis
    unfolding checkout_def uncommitted_guard_compared [OF assms(2-5)]
    by (simp add: findNitDir_def assms(1,6-8) card head Let_def del: S_Cons)
qed

section \<open>Signed requests\<close>

lemma sha256Hex_digest: "sha256Hex data = hex_encode (sha256 (utf8_encode data))"
  by (simp add: sha256Hex_def sha256_digest_hex_def Hash_update_string_def Hash_update_def
      createHash_def)

text \<open>
  C2. With the agent identifier \<open>A\<close> and the key pair of the repository,
  \<open>buildAuthHeaders\<close> for the method \<open>M\<close> and the path \<open>P\<close> at the time \<open>T\<close>, in seconds
  as decimal digits, asks for the signature of the UTF-8 bytes of
  \<open>M LF P LF A LF T\<close> when there is no body, and of that string followed by a line feed
  and the lowercase hex SHA-256 digest of the body when there is one. The headers hold
  \<open>A\<close>, \<open>T\<close> and the signature in base64.
\<close>

theorem buildAuthHeaders_message:
  assumes "loadAgentId w = Inr A" and "loadPrivateKey w = Inr (x, d)"
  shows "buildAuthHeaders e w M P body
         = (let T = decimal (Date_now e div 1000);
                message' = M @ [LF] @ P @ [LF] @ A @ [LF] @ T
                           @ (case body of None \<Rightarrow> []
                              | Some b \<Rightarrow> [LF] @ hex_encode (sha256 (utf8_encode b)))
            in case ed25519_sign e x d (utf8_encode message') of
                 None \<Rightarrow> Inl InvalidKey
               | Some sig \<Rightarrow>
                   Inr \<lparr>X_Nit_Agent_Id = A, X_Nit_Timestamp = T,
                        X_Nit_Signature = base64_encode sig\<rparr>)"
  unfolding buildAuthHeaders_def signMessage_def
  by (cases body)
    (simp_all add: assms Let_def sha256Hex_digest split: option.splits del: S_Cons)

section \<open>The example repository\<close>

subsection \<open>The cards\<close>

lemma example_text_ascii:
  "list_all is_ascii (JSON_stringify_2 (example_card acme))"
  "list_all is_ascii (JSON_stringify_2 (example_card newtype))"
  by (simp_all add: JSON_stringify_2_def example_card_def acme_def newtype_def quote_def
      escape_unit_def is_high_surrogate_def is_low_surrogate_def is_ascii_def Let_def)

lemma example_texts_differ:
  "JSON_stringify_2 (example_card acme) \<noteq> JSON_stringify_2 (example_card newtype)"
  "JSON_stringify_2 (example_card acme) @ [LF] \<noteq> JSON_stringify_2 (example_card newtype)"
  "JSON_stringify_2 (example_card acme) \<noteq> JSON_stringify_2 (example_card newtype) @ [LF]"
  by (simp_all add: JSON_stringify_2_def example_card_def acme_def newtype_def quote_def
      escape_unit_def is_high_surrogate_def is_low_surrogate_def Let_def)

lemma example_parse_text:
  "example_parse (JSON_stringify_2 (example_card acme)) = Inr (example_card acme)"
  "example_parse (JSON_stringify_2 (example_card acme) @ [LF]) = Inr (example_card acme)"
  "example_parse (JSON_stringify_2 (example_card newtype)) = Inr (example_card newtype)"
  "example_parse (JSON_stringify_2 (example_card newtype) @ [LF]) = Inr (example_card newtype)"
  using example_texts_differ by (auto simp: example_parse_def)

lemma example_resolved:
  "resolveSkillPointers example_env (example_card p) = Inr (example_card p)"
  by (simp add: resolveSkillPointers_def example_env_def example_card_def skills_of_def
      property_def Let_def)

subsection \<open>The files\<close>

lemma readFile_ascii:
  "nit_files w f = Some (utf8_encode s) \<Longrightarrow> list_all is_ascii s \<Longrightarrow> readFile w f = Some s"
  by (simp add: readFile_def utf8_decode_encode_ascii)

lemma example_files:
  "nit_files (example_repo r) (S ''HEAD'') = Some (utf8_encode (S ''ref: refs/heads/main'' @ [LF]))"
  "nit_files (example_repo r) (S ''refs/heads/'' @ S ''main'') = Some (utf8_encode (example_main @ [LF]))"
  "nit_files (example_repo r) (S ''refs/heads/'' @ S ''dev'') = Some (utf8_encode (example_dev @ [LF]))"
  "nit_files (example_repo r) (S ''identity/agent-id'') = Some (utf8_encode (example_agent_id @ [LF]))"
  "nit_files (example_repo r) (S ''identity/agent.pub'')
   = Some (utf8_encode (S ''11qYAYKxCrfVS/7TyWQHOg7hcvPapiMlrwIaaPcHURo='' @ [LF]))"
  "nit_files (example_repo r) (S ''identity/agent.key'')
   = Some (utf8_encode (S ''nWGxne/9WmC6hEr0kuwsxERJxWl7MmkZcDusAxyuf2A='' @ [LF]))"
  by (simp_all add: example_repo_def objectFile_take del: utf8_encode.simps)

lemma example_objects:
  "nit_files (example_repo r) (objectFile example_main)
   = Some (utf8_encode
             (serializeCommit
                \<lparr>cf_card = r, cf_parent = None, cf_author = S ''agent'',
                 cf_timestamp = Num 1772000000, cf_message = S ''Initial commit''\<rparr>))"
  "nit_files (example_repo r) (objectFile example_dev)
   = Some (utf8_encode
             (serializeCommit
                \<lparr>cf_card =
                   S ''118341060e757fce637ccb5b506698da9c90880b34f12f7c3b2e5ad6dbd34a44'',
                 cf_parent = Some example_main, cf_author = S ''agent'',
                 cf_timestamp = Num 1772030000, cf_message = S ''Newtype provider''\<rparr>))"
  "nit_files (example_repo r)
     (objectFile (S ''118341060e757fce637ccb5b506698da9c90880b34f12f7c3b2e5ad6dbd34a44''))
   = Some (utf8_encode (JSON_stringify_2 (example_card newtype)))"
  by (simp_all add: example_repo_def objectFile_take example_main_def example_dev_def
      del: utf8_encode.simps)

subsection \<open>Reading the example\<close>

lemma example_names:
  "length example_main = 64" "length example_dev = 64"
  "list_all is_ascii (example_main @ [LF])" "list_all is_ascii (example_dev @ [LF])"
  "trim (example_main @ [LF]) = example_main" "trim (example_dev @ [LF]) = example_dev"
  "example_main \<noteq> []" "example_dev \<noteq> []" "LF \<notin> set example_main"
  by (simp_all add: example_main_def example_dev_def is_ascii_def trim_def is_white_space_def)

lemma example_branch: "getCurrentBranch (example_repo r) = Inr (S ''main'')"
proof -
  define head where "head = S ''ref: refs/heads/main'' @ [LF]"
  have "list_all is_ascii head"
    by (simp add: head_def is_ascii_def)
  with example_files(1) [of r] have "readFile (example_repo r) (S ''HEAD'') = Some head"
    unfolding head_def [symmetric] by (rule readFile_ascii)
  moreover have "trim head = S ''ref: refs/heads/main''"
    by (simp add: head_def trim_def is_white_space_def)
  ultimately show ?thesis
    by (simp add: getCurrentBranch_def getHead_def startsWith_def)
qed

lemma example_tips:
  "getBranch (example_repo r) (S ''main'') = Some example_main"
  "getBranch (example_repo r) (S ''dev'') = Some example_dev"
proof -
  have "readFile (example_repo r) (S ''refs/heads/'' @ S ''main'') = Some (example_main @ [LF])"
    using example_files(2) example_names(3) by (rule readFile_ascii)
  then show "getBranch (example_repo r) (S ''main'') = Some example_main"
    by (simp only: getBranch_def option.map example_names(5))
  have "readFile (example_repo r) (S ''refs/heads/'' @ S ''dev'') = Some (example_dev @ [LF])"
    using example_files(3) example_names(4) by (rule readFile_ascii)
  then show "getBranch (example_repo r) (S ''dev'') = Some example_dev"
    by (simp only: getBranch_def option.map example_names(6))
qed

lemma example_head: "resolveHead (example_repo r) = Inr example_main"
proof -
  define head where "head = S ''ref: refs/heads/main'' @ [LF]"
  have "list_all is_ascii head"
    by (simp add: head_def is_ascii_def)
  with example_files(1) [of r] have "readFile (example_repo r) (S ''HEAD'') = Some head"
    unfolding head_def [symmetric] by (rule readFile_ascii)
  moreover have "trim head = S ''ref: '' @ S ''refs/heads/'' @ S ''main''"
    by (simp add: head_def trim_def is_white_space_def)
  ultimately have "getHead (example_repo r) = Inr (S ''refs/heads/'' @ S ''main'')"
    by (simp add: getHead_def del: S_Cons)
  moreover have "readFile (example_repo r) (S ''refs/heads/'' @ S ''main'')
                 = Some (example_main @ [LF])"
    using example_files(2) example_names(3) by (rule readFile_ascii)
  ultimately show ?thesis
    by (simp add: resolveHead_def example_names(5) del: S_Cons)
qed

text \<open>The two commits, for a first card reference without line feeds.\<close>

lemma example_main_commit:
  assumes "r \<noteq> []" and "list_all (\<lambda>u. is_ascii u \<and> u \<noteq> LF) r"
  shows "\<exists>raw. readObject (example_repo r) example_main = Inr raw
           \<and> parseCommit example_main raw
               = Inr \<lparr>hash = example_main, card' = r, parent = None, author = S ''agent'',
                      timestamp = Num 1772000000, message = S ''Initial commit''\<rparr>"
proof -
  let ?x = "\<lparr>cf_card = r, cf_parent = None, cf_author = S ''agent'',
             cf_timestamp = Num 1772000000, cf_message = S ''Initial commit''\<rparr>"
  have ascii: "list_all is_ascii r" and lf: "LF \<notin> set r"
    using assms(2) by (auto simp: list_all_iff)
  have "list_all is_ascii (serializeCommit ?x)"
    using ascii by (simp add: serializeCommit_def decimal.simps is_ascii_def)
  with example_objects(1) have "readFile (example_repo r) (objectFile example_main)
      = Some (serializeCommit ?x)"
    by (rule readFile_ascii)
  then have "readObject (example_repo r) example_main = Inr (serializeCommit ?x)"
    by (simp add: readObject_def)
  moreover have "parseCommit example_main (serializeCommit ?x)
      = Inr \<lparr>hash = example_main, card' = r, parent = None, author = S ''agent'',
             timestamp = Num 1772000000, message = S ''Initial commit''\<rparr>"
    using assms(1) lf by (intro parseCommit_serializeCommit_fields) simp_all
  ultimately show ?thesis
    by blast
qed

lemma example_dev_commit:
  "\<exists>raw. readObject (example_repo r) example_dev = Inr raw
     \<and> parseCommit example_dev raw
         = Inr \<lparr>hash = example_dev,
                card' = S ''118341060e757fce637ccb5b506698da9c90880b34f12f7c3b2e5ad6dbd34a44'',
                parent = Some example_main, author = S ''agent'',
                timestamp = Num 1772030000, message = S ''Newtype provider''\<rparr>"
proof -
  let ?x = "\<lparr>cf_card = S ''118341060e757fce637ccb5b506698da9c90880b34f12f7c3b2e5ad6dbd34a44'',
             cf_parent = Some example_main, cf_author = S ''agent'',
             cf_timestamp = Num 1772030000, cf_message = S ''Newtype provider''\<rparr>"
  have "list_all is_ascii (serializeCommit ?x)"
    by (simp add: serializeCommit_def decimal.simps is_ascii_def example_main_def)
  with example_objects(2) have "readFile (example_repo r) (objectFile example_dev)
      = Some (serializeCommit ?x)"
    by (rule readFile_ascii)
  then have "readObject (example_repo r) example_dev = Inr (serializeCommit ?x)"
    by (simp add: readObject_def)
  moreover have "parseCommit example_dev (serializeCommit ?x)
      = Inr \<lparr>hash = example_dev,
             card' = S ''118341060e757fce637ccb5b506698da9c90880b34f12f7c3b2e5ad6dbd34a44'',
             parent = Some example_main, author = S ''agent'',
             timestamp = Num 1772030000, message = S ''Newtype provider''\<rparr>"
    using example_names(9) by (intro parseCommit_serializeCommit_fields) simp_all
  ultimately show ?thesis
    by blast
qed

lemma example_working_card:
  "readWorkingCard example_env (example_repo r) = Inr (example_card acme)"
proof -
  have "list_all is_ascii (JSON_stringify_2 (example_card acme) @ [LF])"
    using example_text_ascii(1) by (simp add: is_ascii_def)
  then have "utf8_decode (utf8_encode (JSON_stringify_2 (example_card acme) @ [LF]))
             = JSON_stringify_2 (example_card acme) @ [LF]"
    by (rule utf8_decode_encode_ascii)
  then show ?thesis
    by (simp add: readWorkingCard_def example_repo_def example_env_def example_parse_text(2)
        del: utf8_encode.simps)
qed


subsection \<open>Writing in the example\<close>

lemma example_refused: "refused (example_repo r) t = False"
  by (simp add: example_repo_def)

lemma example_domain:
  assumes "nit_files (example_repo r) a \<noteq> None"
  shows "a \<in> {S ''HEAD'', S ''refs/heads/main'', S ''refs/heads/dev'', S ''identity/agent-id'',
              S ''identity/agent.pub'', S ''identity/agent.key''}
         \<or> a \<in> {objectFile r, objectFile example_main, objectFile example_dev,
                  objectFile (S ''118341060e757fce637ccb5b506698da9c90880b34f12f7c3b2e5ad6dbd34a44'')}"
proof -
  have "objectFile (S ''118341060e757fce637ccb5b506698da9c90880b34f12f7c3b2e5ad6dbd34a44'')
        = S ''objects/11/8341060e757fce637ccb5b506698da9c90880b34f12f7c3b2e5ad6dbd34a44''"
    by (simp add: objectFile_take)
  with assms show ?thesis
    by (simp add: example_repo_def split: if_splits del: S_Cons utf8_encode.simps)
qed

lemma example_not_blocked:
  assumes "length r = 64"
    and "\<And>v. p \<noteq> S ''HEAD'' @ 0x2F # v" and "\<And>v. p \<noteq> S ''refs/heads/main'' @ 0x2F # v"
    and "\<And>v. p \<noteq> S ''refs/heads/dev'' @ 0x2F # v"
    and "\<And>v. p \<noteq> S ''identity/agent-id'' @ 0x2F # v"
    and "\<And>v. p \<noteq> S ''identity/agent.pub'' @ 0x2F # v"
    and "\<And>v. p \<noteq> S ''identity/agent.key'' @ 0x2F # v"
    and "\<And>h v. length h = 64 \<Longrightarrow> p \<noteq> objectFile h @ 0x2F # v"
  shows "\<not> blocked (example_repo r) p"
proof
  assume "blocked (example_repo r) p"
  then obtain a v where p: "p = a @ 0x2F # v" and a: "nit_files (example_repo r) a \<noteq> None"
    by (auto simp: blocked_iff)
  have "length (S ''118341060e757fce637ccb5b506698da9c90880b34f12f7c3b2e5ad6dbd34a44'') = 64"
    by simp
  with example_domain [OF a] p assms example_names(1,2) show False
    by (elim disjE insertE emptyE) blast+
qed

lemma example_accepts:
  assumes "length r = 64"
  shows "accepts (example_repo r) CardFile"
    and "accepts (example_repo r) (NitFile (S ''HEAD''))"
    and "accepts (example_repo r) (NitDir (S ''refs/heads''))"
    and "accepts (example_repo r) (NitFile (S ''refs/heads/'' @ S ''main''))"
    and "length h = 64 \<Longrightarrow> accepts (example_repo r) (NitDir (objectDir h))"
    and "length h = 64 \<Longrightarrow> accepts (example_repo r) (NitFile (objectFile h))"
proof -
  show "accepts (example_repo r) CardFile"
    by (simp add: accepts.simps example_refused)
  have "\<not> blocked (example_repo r) (S ''HEAD'')"
    using assms by (rule example_not_blocked) (simp_all add: objectFile_take)
  then show "accepts (example_repo r) (NitFile (S ''HEAD''))"
    by (simp add: accepts.simps example_refused del: S_Cons)
  have "\<not> blocked (example_repo r) (S ''refs/heads'' @ S ''/'')"
    using assms by (rule example_not_blocked) (simp_all add: objectFile_take)
  then show "accepts (example_repo r) (NitDir (S ''refs/heads''))"
    by (simp add: accepts.simps example_refused del: S_Cons)
  have "\<not> blocked (example_repo r) (S ''refs/heads/'' @ S ''main'')"
    using assms by (rule example_not_blocked) (simp_all add: objectFile_take)
  then show "accepts (example_repo r) (NitFile (S ''refs/heads/'' @ S ''main''))"
    by (simp add: accepts.simps example_refused del: S_Cons)
  show "accepts (example_repo r) (NitDir (objectDir h))" if h: "length h = 64"
  proof -
    have "\<not> blocked (example_repo r) (objectDir h @ S ''/'')"
      using assms
    proof (rule example_not_blocked)
      show "objectDir h @ S ''/'' \<noteq> objectFile h' @ 0x2F # v" if "length h' = 64" for h' v
        using that by (rule objectFile_beside_objectDir)
    qed (simp_all add: objectDir_take)
    then show ?thesis
      by (simp add: accepts.simps example_refused del: S_Cons)
  qed
  show "accepts (example_repo r) (NitFile (objectFile h))" if h: "length h = 64"
  proof -
    have "\<not> blocked (example_repo r) (objectFile h)"
      using assms
    proof (rule example_not_blocked)
      show "objectFile h \<noteq> objectFile h' @ 0x2F # v" if "length h' = 64" for h' v
        using that h by (rule objectFile_beside_objectFile)
    qed (simp_all add: objectFile_take)
    then show ?thesis
      by (simp add: accepts.simps example_refused del: S_Cons)
  qed
qed

subsection \<open>Committing in the example\<close>

lemma example_found: "nit_dir (example_repo r)"
  by (simp add: example_repo_def del: utf8_encode.simps)

lemma example_journal: "journal (example_repo r) = []"
  by (simp add: example_repo_def del: utf8_encode.simps)

lemma example_card_stored: "objectExists (example_repo r) r"
  by (simp add: objectExists_def example_repo_def del: utf8_encode.simps S_Cons)

lemma example_digest_name:
  "length example_digest = 64" "example_digest \<noteq> []"
  "list_all (\<lambda>u. is_ascii u \<and> u \<noteq> LF) example_digest"
  using hashObject_lower_hex [of Card "JSON_stringify_2 (example_card acme)"]
    lower_hex_ascii lower_hex_not_LF
  by (auto simp: example_digest_def hashObject_length hashObject_not_Nil list_all_iff)


text \<open>The hypotheses of a commit on \<^verbatim>\<open>main\<close> in the example.\<close>

lemma example_accepts_commit:
  assumes "length r = 64"
  shows "list_all (accepts (example_repo r))
           [CardFile, NitDir (objectDir (hashObject Card c)),
            NitFile (objectFile (hashObject Card c)),
            NitDir (objectDir (hashObject Commit t)),
            NitFile (objectFile (hashObject Commit t)),
            NitDir (S ''refs/heads''), NitFile (S ''refs/heads/'' @ S ''main'')]"
  using example_accepts [OF assms] by (simp add: hashObject_length del: S_Cons)


text \<open>
  On the example, the failed \<open>commit\<close> has written the card file; the card object was
  in the store.
\<close>

theorem commit_nothing_to_commit_state_witness:
  "fst (commit example_env (S ''Again'') (example_repo example_digest)) = Inl NothingToCommit
   \<and> card_file (snd (commit example_env (S ''Again'') (example_repo example_digest)))
       = Some (utf8_encode (JSON_stringify_2 (example_card acme) @ [LF]))
   \<and> objectExists (snd (commit example_env (S ''Again'') (example_repo example_digest)))
       example_digest
   \<and> journal (snd (commit example_env (S ''Again'') (example_repo example_digest)))
       = [CardFile]"
proof -
  let ?w = "example_repo example_digest"
  obtain raw where raw: "readObject ?w example_main = Inr raw"
    and tip: "parseCommit example_main raw
              = Inr \<lparr>hash = example_main, card' = example_digest, parent = None,
                     author = S ''agent'', timestamp = Num 1772000000,
                     message = S ''Initial commit''\<rparr>"
    using example_main_commit [OF example_digest_name(2,3)] by blast
  have failed: "fst (commit example_env (S ''Again'') ?w) = Inl NothingToCommit"
    using commit_with_tip [OF example_found example_working_card example_resolved
        example_branch example_tips(1) example_names(7) raw tip
        example_accepts_commit [OF example_digest_name(1)], of "S ''Again''"]
    by (simp add: example_digest_def)
  from commit_nothing_to_commit_state [OF failed] failed
  show ?thesis
    by (auto simp: example_working_card example_resolved example_journal example_card_stored
        example_digest_def [symmetric] simp del: S_Cons)
qed


end
